theory Spec2Isabelle
  imports Complex_Main "HOL-Library.Sublist"
begin

section \<open>Numbers and errors of the Python program\<close>

text \<open>
  The program computes with Python and numpy floats. The engine's loop and the risk
  gate are modelled over exact reals: rounding is not modelled there, and the non-finite
  values that numpy produces where Python raises are written out. The two computations
  whose claims turn on rounding and overflow, the BUY branch of the loop and
  \<open>calculate_position_size\<close>, are modelled a second time over IEEE doubles further
  below. Every exception the modelled code can raise is a value of \<open>py_error\<close>; a
  function that can raise returns \<open>py_error + 'a\<close>.
\<close>

datatype py_error = ZeroDivisionError | IndexError | OverflowError | ValueError

text \<open>Python's \<open>int(x)\<close> on a float truncates towards zero.\<close>

definition py_int :: "real \<Rightarrow> int" where
  "py_int x = (if 0 \<le> x then \<lfloor>x\<rfloor> else \<lceil>x\<rceil>)"

text \<open>Python's \<open>a / b\<close> on Python numbers raises when the divisor is zero.\<close>

definition py_truediv :: "real \<Rightarrow> real \<Rightarrow> py_error + real" where
  "py_truediv a b = (if b = 0 then Inl ZeroDivisionError else Inr (a / b))"

text \<open>
  A numpy \<open>float64\<close> result: division by zero does not raise there, it yields an
  infinity or \<open>nan\<close> (with a warning only).
\<close>

datatype npfloat = Finite real | PosInf | NegInf | NaN

definition np_truediv :: "real \<Rightarrow> real \<Rightarrow> npfloat" where
  "np_truediv a b =
     (if b \<noteq> 0 then Finite (a / b)
      else if 0 < a then PosInf
      else if a < 0 then NegInf
      else NaN)"

text \<open>\<open>x * 100\<close>: multiplication by a positive finite constant.\<close>

fun np_times100 :: "npfloat \<Rightarrow> npfloat" where
  "np_times100 (Finite x) = Finite (x * 100)"
| "np_times100 PosInf = PosInf"
| "np_times100 NegInf = NegInf"
| "np_times100 NaN = NaN"

text \<open>\<open>x > y\<close> on floats: every comparison with \<open>nan\<close> is false.\<close>

fun np_gt :: "npfloat \<Rightarrow> npfloat \<Rightarrow> bool" where
  "np_gt (Finite x) (Finite y) = (y < x)"
| "np_gt PosInf (Finite y) = True"
| "np_gt PosInf NegInf = True"
| "np_gt (Finite x) NegInf = True"
| "np_gt _ _ = False"

text \<open>\<open>int(x)\<close> on a numpy float: an infinity raises OverflowError, \<open>nan\<close> ValueError.\<close>

fun np_int :: "npfloat \<Rightarrow> py_error + int" where
  "np_int (Finite x) = Inr (py_int x)"
| "np_int PosInf = Inl OverflowError"
| "np_int NegInf = Inl OverflowError"
| "np_int NaN = Inl ValueError"


section \<open>main.py: the backtesting engine\<close>

text \<open>
  A trade is a dictionary. The keys \<open>type\<close>, \<open>price\<close>, \<open>shares\<close>, \<open>value\<close> and
  \<open>date\<close> are always present, \<open>profit\<close> on SELL trades only; the remaining keys are
  the ones \<open>apply_risk_management\<close> reads (\<open>available_capital\<close>) or adds. An absent key
  is \<open>None\<close>. A date is the timestamp of the bar, a natural number here.
\<close>

record trade =
  type :: string
  price :: real
  shares :: int
  "value" :: real
  profit :: "real option"
  date :: nat
  available_capital :: "real option"
  position_size :: "int option"
  stop_loss_price :: "real option"
  risk_reward :: "real option"
  exit_reason :: "string option"

record equity_point =
  e_date :: nat
  e_value :: real

text \<open>
  One row of the data frame after the strategy has run: the index (timestamp), the
  \<open>Close\<close> column and the \<open>Signal\<close> column the strategy assigned (0, 1 or -1). The
  strategies differ in how they compute \<open>Signal\<close> (through pandas and the \<open>ta\<close> library);
  all four end with \<open>data['Position'] = data['Signal'].diff()\<close>, which is \<open>diff\<close> below:
  the first entry is \<open>nan\<close> (\<open>None\<close>), every later one the difference to its predecessor.
\<close>

record row =
  index :: nat
  Close :: real
  Signal :: int

fun diff_from :: "int \<Rightarrow> int list \<Rightarrow> int option list" where
  "diff_from prev [] = []"
| "diff_from prev (x # xs) = Some (x - prev) # diff_from x xs"

fun diff :: "int list \<Rightarrow> int option list" where
  "diff [] = []"
| "diff (x # xs) = None # diff_from x xs"

text \<open>The mutable fields of a \<open>Backtester\<close> that \<open>run\<close> resets and updates.\<close>

record backtester =
  cash :: real
  position :: int
  trades :: "trade list"
  equity_curve :: "equity_point list"

definition reset :: "real \<Rightarrow> backtester" where
  "reset initial_capital =
     \<lparr>cash = initial_capital, position = 0, trades = [], equity_curve = []\<rparr>"

definition buy_trade :: "real \<Rightarrow> int \<Rightarrow> real \<Rightarrow> nat \<Rightarrow> trade" where
  "buy_trade p n c d =
     \<lparr>type = ''BUY'', price = p, shares = n, value = c, profit = None, date = d,
      available_capital = None, position_size = None, stop_loss_price = None,
      risk_reward = None, exit_reason = None\<rparr>"

definition sell_trade :: "real \<Rightarrow> int \<Rightarrow> real \<Rightarrow> real \<Rightarrow> nat \<Rightarrow> trade" where
  "sell_trade p n v pr d =
     \<lparr>type = ''SELL'', price = p, shares = n, value = v, profit = Some pr, date = d,
      available_capital = None, position_size = None, stop_loss_price = None,
      risk_reward = None, exit_reason = None\<rparr>"

text \<open>The equity point appended at the end of a loop iteration.\<close>

definition track_equity :: "row \<Rightarrow> backtester \<Rightarrow> backtester" where
  "track_equity r b =
     b\<lparr>equity_curve := equity_curve b @
         [\<lparr>e_date = index r, e_value = cash b + real_of_int (position b) * Close r\<rparr>]\<rparr>"

text \<open>
  One iteration of the loop of \<open>run\<close> on a row and its \<open>Position\<close> entry. A \<open>nan\<close>
  entry leaves the iteration at \<open>continue\<close>, before the equity point is appended.
\<close>

definition step :: "backtester \<Rightarrow> row \<times> int option \<Rightarrow> py_error + backtester" where
  "step b rp =
     (case rp of (r, pos) \<Rightarrow>
      (case pos of
         None \<Rightarrow> Inr b
       | Some chg \<Rightarrow>
          (let current_price = Close r in
           if chg = 2 \<and> position b = 0 then
             (case np_int (np_truediv (cash b) current_price) of
                Inl e \<Rightarrow> Inl e
              | Inr n \<Rightarrow>
                 if n > 0 then
                   (let cost = real_of_int n * current_price in
                    Inr (track_equity r
                      (b\<lparr>position := n, cash := cash b - cost,
                         trades := trades b @ [buy_trade current_price n cost (index r)]\<rparr>)))
                 else Inr (track_equity r b))
           else if chg = - 2 \<and> position b > 0 then
             (let v = real_of_int (position b) * current_price;
                  pr = v - (if trades b \<noteq> [] then value (last (trades b)) else 0)
              in Inr (track_equity r
                   (b\<lparr>cash := cash b + v,
                      trades := trades b @ [sell_trade current_price (position b) v pr (index r)],
                      position := 0\<rparr>)))
           else Inr (track_equity r b))))"

fun exec_bars :: "backtester \<Rightarrow> (row \<times> int option) list \<Rightarrow> py_error + backtester" where
  "exec_bars b [] = Inr b"
| "exec_bars b (rp # rps) =
     (case step b rp of Inl e \<Rightarrow> Inl e | Inr b' \<Rightarrow> exec_bars b' rps)"

text \<open>The rows paired with their \<open>Position\<close> column.\<close>

definition positions :: "row list \<Rightarrow> (row \<times> int option) list" where
  "positions data = zip data (diff (map Signal data))"

text \<open>
  The win rate. Both lengths are Python integers, so a ledger that is not empty and
  holds no SELL raises ZeroDivisionError.
\<close>

definition winning_trades :: "trade list \<Rightarrow> trade list" where
  "winning_trades ts =
     filter (\<lambda>t. type t = ''SELL'' \<and> (case profit t of None \<Rightarrow> 0 | Some p \<Rightarrow> p) > 0) ts"

definition sell_trades :: "trade list \<Rightarrow> trade list" where
  "sell_trades ts = filter (\<lambda>t. type t = ''SELL'') ts"

definition win_rate_of :: "trade list \<Rightarrow> py_error + real" where
  "win_rate_of ts =
     (if ts \<noteq> [] then
        (if length (sell_trades ts) = 0 then Inl ZeroDivisionError
         else Inr (real (length (winning_trades ts)) / real (length (sell_trades ts)) * 100))
      else Inr 0)"

text \<open>
  The maximum drawdown scan. The equity values are numpy floats, so a zero peak gives
  an infinity or \<open>nan\<close> and no exception; \<open>equity_values[0]\<close> on an empty list raises
  IndexError.
\<close>

fun drawdown_loop :: "real \<Rightarrow> npfloat \<Rightarrow> real list \<Rightarrow> npfloat" where
  "drawdown_loop peak max_dd [] = max_dd"
| "drawdown_loop peak max_dd (v # vs) =
     (let peak' = (if v > peak then v else peak);
          drawdown = np_times100 (np_truediv (peak' - v) peak')
      in drawdown_loop peak' (if np_gt drawdown max_dd then drawdown else max_dd) vs)"

definition max_drawdown_of :: "real list \<Rightarrow> py_error + npfloat" where
  "max_drawdown_of equity_values =
     (case equity_values of
        [] \<Rightarrow> Inl IndexError
      | v # _ \<Rightarrow> Inr (drawdown_loop v (Finite 0) equity_values))"

text \<open>
  The dictionary \<open>run\<close> returns. The Sharpe ratio is left out: it is computed from the
  finished equity values by pandas and numpy calls (\<open>pct_change\<close>, \<open>mean\<close>, \<open>std\<close>,
  \<open>sqrt\<close>) after everything else, raises nothing and feeds no other field.
\<close>

record backtest_result =
  r_initial_capital :: real
  r_final_value :: real
  r_total_return :: npfloat
  r_total_trades :: nat
  r_win_rate :: real
  r_max_drawdown :: npfloat
  r_trades :: "trade list"
  r_equity_curve :: "equity_point list"

text \<open>
  \<open>Backtester.run\<close> on the data frame the strategy returned. The statements after the
  loop run in the source's order: \<open>data['Close'].iloc[-1]\<close> (IndexError on an empty
  frame), the total return (a numpy division), the win rate, the drawdown scan.
\<close>

definition run :: "real \<Rightarrow> row list \<Rightarrow> py_error + backtest_result" where
  "run initial_capital data =
     (case exec_bars (reset initial_capital) (positions data) of
        Inl e \<Rightarrow> Inl e
      | Inr b \<Rightarrow>
         if data = [] then Inl IndexError
         else
           (let final_value = cash b + real_of_int (position b) * Close (last data);
                total_return =
                  np_times100 (np_truediv (final_value - initial_capital) initial_capital)
            in case win_rate_of (trades b) of
                 Inl e \<Rightarrow> Inl e
               | Inr win_rate \<Rightarrow>
                  (case max_drawdown_of (map e_value (equity_curve b)) of
                     Inl e \<Rightarrow> Inl e
                   | Inr max_drawdown \<Rightarrow>
                      Inr \<lparr>r_initial_capital = initial_capital,
                           r_final_value = final_value,
                           r_total_return = total_return,
                           r_total_trades = length (trades b),
                           r_win_rate = win_rate,
                           r_max_drawdown = max_drawdown,
                           r_trades = trades b,
                           r_equity_curve = equity_curve b\<rparr>)))"


section \<open>risk\_management.py: position sizing and the risk gate\<close>

text \<open>
  The arguments of these methods are Python floats, so a division by zero raises here.
\<close>

record RiskManager =
  initial_capital :: real
  max_position_size :: real
  stop_loss_pct :: real
  take_profit_pct :: real
  max_drawdown_pct :: real
  peak_value :: real
  current_drawdown :: real

definition RiskManager_init :: "real \<Rightarrow> real \<Rightarrow> real \<Rightarrow> real \<Rightarrow> real \<Rightarrow> RiskManager" where
  "RiskManager_init ic mps slp tpp mdp =
     \<lparr>initial_capital = ic, max_position_size = mps, stop_loss_pct = slp,
      take_profit_pct = tpp, max_drawdown_pct = mdp, peak_value = ic, current_drawdown = 0\<rparr>"

text \<open>The instance built with the defaults of the constructor.\<close>

definition default_RiskManager :: RiskManager where
  "default_RiskManager = RiskManager_init 100000 (2 / 10) (5 / 100) (10 / 100) (20 / 100)"

text \<open>
  \<open>if volatility and volatility > 0\<close>: an absent or zero volatility is falsy.
\<close>

definition calculate_position_size ::
  "RiskManager \<Rightarrow> real \<Rightarrow> real \<Rightarrow> real option \<Rightarrow> py_error + int" where
  "calculate_position_size rm current_capital current_price volatility =
     (let max_investment = current_capital * max_position_size rm in
      case py_truediv max_investment current_price of
        Inl e \<Rightarrow> Inl e
      | Inr q \<Rightarrow>
         (let shares = py_int q;
              shares' =
                (case volatility of
                   None \<Rightarrow> shares
                 | Some v \<Rightarrow>
                    if v \<noteq> 0 \<and> v > 0
                    then py_int (real_of_int shares * min (25 / 100) (1 / v))
                    else shares)
          in Inr (max 0 shares')))"

definition check_stop_loss :: "RiskManager \<Rightarrow> real \<Rightarrow> real \<Rightarrow> py_error + bool" where
  "check_stop_loss rm entry_price current_price =
     (case py_truediv (entry_price - current_price) entry_price of
        Inl e \<Rightarrow> Inl e
      | Inr loss_pct \<Rightarrow> Inr (loss_pct \<ge> stop_loss_pct rm))"

definition check_take_profit :: "RiskManager \<Rightarrow> real \<Rightarrow> real \<Rightarrow> py_error + bool" where
  "check_take_profit rm entry_price current_price =
     (case py_truediv (current_price - entry_price) entry_price of
        Inl e \<Rightarrow> Inl e
      | Inr profit_pct \<Rightarrow> Inr (profit_pct \<ge> take_profit_pct rm))"

text \<open>The dictionary \<open>update_drawdown\<close> returns.\<close>

record drawdown_info =
  d_current_drawdown :: real
  d_max_drawdown :: real
  d_peak_value :: real
  d_halt_trading :: bool

text \<open>
  \<open>update_drawdown\<close> mutates the instance, so it returns the instance after the call
  beside its outcome. The peak is stored before the division, so it stays raised when
  the division raises; \<open>current_drawdown\<close> is then left as it was.
\<close>

definition update_drawdown ::
  "RiskManager \<Rightarrow> real \<Rightarrow> RiskManager \<times> (py_error + drawdown_info)" where
  "update_drawdown rm current_value =
     (let rm1 = (if current_value > peak_value rm
                 then rm\<lparr>peak_value := current_value\<rparr> else rm)
      in case py_truediv (peak_value rm1 - current_value) (peak_value rm1) of
           Inl e \<Rightarrow> (rm1, Inl e)
         | Inr dd \<Rightarrow>
            (let rm2 = rm1\<lparr>current_drawdown := dd\<rparr>;
                 halt_trading = (current_drawdown rm2 \<ge> max_drawdown_pct rm2)
             in (rm2, Inr \<lparr>d_current_drawdown = current_drawdown rm2,
                          d_max_drawdown = max_drawdown_pct rm2,
                          d_peak_value = peak_value rm2,
                          d_halt_trading = halt_trading\<rparr>)))"

definition calculate_risk_reward_ratio :: "real \<Rightarrow> real \<Rightarrow> real \<Rightarrow> real" where
  "calculate_risk_reward_ratio entry_price target_price stop_loss_price' =
     (let potential_profit = target_price - entry_price;
          potential_loss = entry_price - stop_loss_price'
      in if potential_loss \<le> 0 then 0 else potential_profit / potential_loss)"

text \<open>
  The dictionary \<open>should_enter_trade\<close> returns, one constructor for each \<open>return\<close>:
  \<^item> \<open>Maximum_drawdown_exceeded drawdown\<close>: \<open>enter\<close> false, reason
    \<open>'Maximum drawdown exceeded'\<close>;
  \<^item> \<open>Poor_risk_reward risk_reward\<close>: \<open>enter\<close> false, reason
    \<open>'Poor risk/reward ratio: ...'\<close>;
  \<^item> \<open>Insufficient_capital required\<close>: \<open>enter\<close> false, reason
    \<open>'Insufficient capital for position'\<close>;
  \<^item> \<open>Enter position_size stop_loss_price risk_reward max_loss\<close>: \<open>enter\<close> true.
\<close>

datatype decision =
    Maximum_drawdown_exceeded real
  | Poor_risk_reward real
  | Insufficient_capital real
  | Enter int real real real

fun enter :: "decision \<Rightarrow> bool" where
  "enter (Enter _ _ _ _) = True"
| "enter _ = False"

definition should_enter_trade ::
  "RiskManager \<Rightarrow> real \<Rightarrow> real \<Rightarrow> real \<Rightarrow> RiskManager \<times> (py_error + decision)" where
  "should_enter_trade rm current_capital entry_price target_price =
     (let slp = entry_price * (1 - stop_loss_pct rm) in
      case update_drawdown rm current_capital of
        (rm', Inl e) \<Rightarrow> (rm', Inl e)
      | (rm', Inr drawdown_info) \<Rightarrow>
         if d_halt_trading drawdown_info
         then (rm', Inr (Maximum_drawdown_exceeded (d_current_drawdown drawdown_info)))
         else
           (let rr = calculate_risk_reward_ratio entry_price target_price slp in
            if rr < 2 then (rm', Inr (Poor_risk_reward rr))
            else
              (case calculate_position_size rm' current_capital entry_price None of
                 Inl e \<Rightarrow> (rm', Inl e)
               | Inr psize \<Rightarrow>
                  if psize = 0 then (rm', Inr (Insufficient_capital entry_price))
                  else (rm', Inr (Enter psize slp rr
                          (real_of_int psize * entry_price * stop_loss_pct rm'))))))"

text \<open>
  The loop of \<open>apply_risk_management\<close>: the risk manager, \<open>managed_trades\<close> and
  \<open>current_position\<close> are threaded through the remaining trades. The \<open>prices\<close> argument
  of the source is never read. The source also writes the annotations into the
  dictionaries of the input list; the model returns the annotated trades only.
\<close>

fun managed_loop ::
  "RiskManager \<Rightarrow> trade list \<Rightarrow> trade option \<Rightarrow> trade list \<Rightarrow>
     RiskManager \<times> (py_error + trade list)" where
  "managed_loop rm managed_trades current_position [] = (rm, Inr managed_trades)"
| "managed_loop rm managed_trades current_position (t # ts) =
     (if type t = ''BUY'' then
        (let target_price = price t * (1 + take_profit_pct rm) in
         case should_enter_trade rm
                (case available_capital t of None \<Rightarrow> 100000 | Some c \<Rightarrow> c)
                (price t) target_price of
           (rm', Inl e) \<Rightarrow> (rm', Inl e)
         | (rm', Inr (Enter psize slp rr ml)) \<Rightarrow>
             (let t' = t\<lparr>position_size := Some psize, stop_loss_price := Some slp,
                          risk_reward := Some rr\<rparr>
              in managed_loop rm' (managed_trades @ [t']) (Some t') ts)
         | (rm', Inr _) \<Rightarrow> managed_loop rm' managed_trades current_position ts)
      else if type t = ''SELL'' \<and> current_position \<noteq> None then
        (case check_stop_loss rm (price (the current_position)) (price t) of
           Inl e \<Rightarrow> (rm, Inl e)
         | Inr True \<Rightarrow>
             managed_loop rm (managed_trades @ [t\<lparr>exit_reason := Some ''stop_loss''\<rparr>]) None ts
         | Inr False \<Rightarrow>
            (case check_take_profit rm (price (the current_position)) (price t) of
               Inl e \<Rightarrow> (rm, Inl e)
             | Inr True \<Rightarrow>
                 managed_loop rm
                   (managed_trades @ [t\<lparr>exit_reason := Some ''take_profit''\<rparr>]) None ts
             | Inr False \<Rightarrow>
                 managed_loop rm
                   (managed_trades @ [t\<lparr>exit_reason := Some ''signal''\<rparr>]) None ts))
      else managed_loop rm managed_trades current_position ts)"

definition apply_risk_management ::
  "trade list \<Rightarrow> RiskManager \<Rightarrow> RiskManager \<times> (py_error + trade list)" where
  "apply_risk_management ts risk_manager = managed_loop risk_manager [] None ts"

text \<open>
  A sequence of calls on one instance: each call is applied to the instance the
  previous one left.
\<close>

datatype rm_call = Update_drawdown real | Should_enter_trade real real real

fun rm_call_apply :: "RiskManager \<Rightarrow> rm_call \<Rightarrow> RiskManager" where
  "rm_call_apply rm (Update_drawdown v) = fst (update_drawdown rm v)"
| "rm_call_apply rm (Should_enter_trade c e t) = fst (should_enter_trade rm c e t)"

definition rm_calls :: "RiskManager \<Rightarrow> rm_call list \<Rightarrow> RiskManager" where
  "rm_calls rm cs = foldl rm_call_apply rm cs"


section \<open>IEEE doubles: the BUY branch and the position size with rounding\<close>

text \<open>
  A Python float and a numpy \<open>float64\<close> are IEEE 754 binary64 numbers. A finite double
  is a real; every operation returns the exact result rounded to the nearest double,
  ties to the even significand, and an infinity when the rounded magnitude reaches
  \<open>2 ^ 1024\<close>. The sign of a zero is not kept: no comparison, division or \<open>int()\<close>
  modelled here tells the two zeros apart except through the sign of an infinity, and
  both infinities raise the same error.

  \<open>rne\<close> rounds a real to the nearest integer, ties to even.
\<close>

definition rne :: "real \<Rightarrow> int" where
  "rne y =
     (let f = \<lfloor>y\<rfloor>; d = y - of_int f
      in if d < 1 / 2 then f else if 1 / 2 < d then f + 1 else if even f then f else f + 1)"

text \<open>
  The spacing of the doubles around \<open>x\<close>: \<open>2 ^ (e - 52)\<close> for \<open>2 ^ e \<le> |x| < 2 ^ (e + 1)\<close>,
  and \<open>2 ^ - 1074\<close> below the normal range, which starts at \<open>2 ^ - 1022\<close>.
\<close>

definition quantum :: "real \<Rightarrow> real" where
  "quantum x = 2 powi (max \<lfloor>log 2 \<bar>x\<bar>\<rfloor> (- 1022) - 52)"

definition round64 :: "real \<Rightarrow> npfloat" where
  "round64 x =
     (if x = 0 then Finite 0
      else
        (let r = quantum x * of_int (rne (x / quantum x))
         in if 2 ^ 1024 \<le> \<bar>r\<bar> then (if 0 < x then PosInf else NegInf) else Finite r))"

text \<open>
  \<open>a / b\<close> on two finite numpy floats, \<open>a * b\<close> and \<open>a - b\<close> on results that may be
  infinite or \<open>nan\<close>.
\<close>

definition np_truediv64 :: "real \<Rightarrow> real \<Rightarrow> npfloat" where
  "np_truediv64 a b =
     (if b \<noteq> 0 then round64 (a / b)
      else if 0 < a then PosInf
      else if a < 0 then NegInf
      else NaN)"

fun f64_mul :: "npfloat \<Rightarrow> npfloat \<Rightarrow> npfloat" where
  "f64_mul (Finite a) (Finite b) = round64 (a * b)"
| "f64_mul NaN _ = NaN"
| "f64_mul _ NaN = NaN"
| "f64_mul PosInf (Finite b) = (if 0 < b then PosInf else if b < 0 then NegInf else NaN)"
| "f64_mul NegInf (Finite b) = (if 0 < b then NegInf else if b < 0 then PosInf else NaN)"
| "f64_mul (Finite a) PosInf = (if 0 < a then PosInf else if a < 0 then NegInf else NaN)"
| "f64_mul (Finite a) NegInf = (if 0 < a then NegInf else if a < 0 then PosInf else NaN)"
| "f64_mul PosInf PosInf = PosInf"
| "f64_mul PosInf NegInf = NegInf"
| "f64_mul NegInf PosInf = NegInf"
| "f64_mul NegInf NegInf = PosInf"

fun f64_sub :: "npfloat \<Rightarrow> npfloat \<Rightarrow> npfloat" where
  "f64_sub (Finite a) (Finite b) = round64 (a - b)"
| "f64_sub NaN _ = NaN"
| "f64_sub _ NaN = NaN"
| "f64_sub PosInf PosInf = NaN"
| "f64_sub NegInf NegInf = NaN"
| "f64_sub PosInf _ = PosInf"
| "f64_sub NegInf _ = NegInf"
| "f64_sub (Finite a) PosInf = NegInf"
| "f64_sub (Finite a) NegInf = PosInf"

text \<open>
  The BUY branch of the loop of \<open>run\<close> on doubles, from the cash and the closing price
  to the new position and cash:
  \<^verbatim>\<open>shares = int(self.cash / current_price)\<close>,
  \<^verbatim>\<open>if shares > 0: self.position = shares; cost = shares * current_price; self.cash -= cost\<close>.
  The integer \<open>shares\<close> is converted to a double for the product.
\<close>

definition buy_float64 :: "real \<Rightarrow> real \<Rightarrow> py_error + int \<times> npfloat" where
  "buy_float64 cash0 current_price =
     (case np_int (np_truediv64 cash0 current_price) of
        Inl e \<Rightarrow> Inl e
      | Inr n \<Rightarrow>
         if n > 0 then
           (let cost = f64_mul (round64 (of_int n)) (Finite current_price)
            in Inr (n, f64_sub (Finite cash0) cost))
         else Inr (0, Finite cash0))"

text \<open>
  \<open>a / b\<close> on Python floats with a finite divisor: a zero divisor raises whatever the
  dividend is. \<open>float(n)\<close> of a Python integer raises OverflowError when the integer is
  too large. \<open>min(a, b)\<close> returns \<open>b\<close> when \<open>b < a\<close> and \<open>a\<close> otherwise.
\<close>

definition py_truediv64 :: "npfloat \<Rightarrow> real \<Rightarrow> py_error + npfloat" where
  "py_truediv64 a b =
     (if b = 0 then Inl ZeroDivisionError
      else Inr (case a of
                  Finite m \<Rightarrow> round64 (m / b)
                | PosInf \<Rightarrow> if 0 < b then PosInf else NegInf
                | NegInf \<Rightarrow> if 0 < b then NegInf else PosInf
                | NaN \<Rightarrow> NaN))"

definition int_to_float64 :: "int \<Rightarrow> py_error + npfloat" where
  "int_to_float64 n =
     (case round64 (of_int n) of Finite r \<Rightarrow> Inr (Finite r) | _ \<Rightarrow> Inl OverflowError)"

definition py_min :: "npfloat \<Rightarrow> npfloat \<Rightarrow> npfloat" where
  "py_min a b = (if np_gt a b then b else a)"

text \<open>
  \<open>calculate_position_size\<close> on doubles, statement for statement; \<open>shares * kelly_fraction\<close>
  multiplies a Python integer with a float, which converts the integer first.
\<close>

definition calculate_position_size_float64 ::
  "RiskManager \<Rightarrow> real \<Rightarrow> real \<Rightarrow> real option \<Rightarrow> py_error + int" where
  "calculate_position_size_float64 rm current_capital current_price volatility =
     (let max_investment = round64 (current_capital * max_position_size rm) in
      case py_truediv64 max_investment current_price of
        Inl e \<Rightarrow> Inl e
      | Inr q \<Rightarrow>
         (case np_int q of
            Inl e \<Rightarrow> Inl e
          | Inr sh \<Rightarrow>
             (case volatility of
                None \<Rightarrow> Inr (max 0 sh)
              | Some v \<Rightarrow>
                 if v \<noteq> 0 \<and> v > 0 then
                   (let kelly_fraction = py_min (Finite (1 / 4)) (round64 (1 / v)) in
                    case int_to_float64 sh of
                      Inl e \<Rightarrow> Inl e
                    | Inr sf \<Rightarrow>
                       (case np_int (f64_mul sf kelly_fraction) of
                          Inl e \<Rightarrow> Inl e
                        | Inr sh' \<Rightarrow> Inr (max 0 sh')))
                 else Inr (max 0 sh))))"


section \<open>Notions of the specification\<close>

text \<open>
  The maximum drawdown as the specification words it: the running peak at a point of
  the equity curve is the largest value up to and including that point, the drawdown
  there is (peak - value) / peak as a percentage, and the maximum drawdown is the
  largest of these over the curve.
\<close>

definition running_peak :: "real list \<Rightarrow> nat \<Rightarrow> real" where
  "running_peak vs i = Max (set (take (Suc i) vs))"

definition drawdown_pct :: "real list \<Rightarrow> nat \<Rightarrow> real" where
  "drawdown_pct vs i = (running_peak vs i - vs ! i) / running_peak vs i * 100"

definition spec_max_drawdown :: "real list \<Rightarrow> real" where
  "spec_max_drawdown vs = Max (set (map (drawdown_pct vs) [0..<length vs]))"

text \<open>
  The drawdown at a point when the scan starts from a peak \<open>p\<close> carried in from the left.
\<close>

definition drawdown_from :: "real \<Rightarrow> real list \<Rightarrow> nat \<Rightarrow> real" where
  "drawdown_from p vs i =
     (max p (running_peak vs i) - vs ! i) / max p (running_peak vs i) * 100"

text \<open>A float that is not negative: a finite value from 0 on, or plus infinity.\<close>

fun np_nonneg :: "npfloat \<Rightarrow> bool" where
  "np_nonneg (Finite x) = (0 \<le> x)"
| "np_nonneg PosInf = True"
| "np_nonneg _ = False"

text \<open>
  The keys of a trade that the backtest writes, without the annotations that
  \<open>apply_risk_management\<close> adds.
\<close>

definition unannotated :: "trade \<Rightarrow> trade" where
  "unannotated t =
     t\<lparr>position_size := None, stop_loss_price := None, risk_reward := None,
       exit_reason := None\<rparr>"


section \<open>Invariants of the engine's loop\<close>

text \<open>
  The ledger is well paired over a set of rows: every SELL has a predecessor, which is
  a BUY of the same share count; the SELL is priced at the close of one of the rows, its
  value is shares times price, and its profit is its value minus the value of that BUY.
\<close>

definition ledger_ok :: "row set \<Rightarrow> trade list \<Rightarrow> bool" where
  "ledger_ok S ts \<longleftrightarrow>
     (\<forall>k<length ts. type (ts ! k) = ''SELL'' \<longrightarrow>
        0 < k \<and> type (ts ! (k - 1)) = ''BUY'' \<and> shares (ts ! k) = shares (ts ! (k - 1)) \<and>
        (\<exists>r\<in>S. index r = date (ts ! k) \<and> Close r = price (ts ! k)) \<and>
        value (ts ! k) = real_of_int (shares (ts ! k)) * price (ts ! k) \<and>
        profit (ts ! k) = Some (value (ts ! k) - value (ts ! (k - 1))))"

text \<open>
  While a position is open, the last trade of the ledger is the BUY that opened it.
\<close>

definition open_ok :: "backtester \<Rightarrow> bool" where
  "open_ok b \<longleftrightarrow>
     0 \<le> position b \<and>
     (0 < position b \<longrightarrow>
        trades b \<noteq> [] \<and> type (last (trades b)) = ''BUY'' \<and> shares (last (trades b)) = position b)"

text \<open>
  With a positive capital and positive prices the cash is never negative, it is positive
  while no position is open, and every equity value recorded so far is positive.
\<close>

definition solvent :: "backtester \<Rightarrow> bool" where
  "solvent b \<longleftrightarrow>
     0 \<le> cash b \<and> 0 \<le> position b \<and> (position b = 0 \<longrightarrow> 0 < cash b) \<and>
     (\<forall>p\<in>set (equity_curve b). 0 < e_value p)"


section \<open>A sample run\<close>

text \<open>
  Four bars: the signal turns long at the second bar, stays long while the price falls
  from 10 to 8, and turns short at the fourth bar at a price of 12. With a capital of
  1005 the engine buys 100 shares and keeps 5 in cash.
\<close>

definition sample_data :: "row list" where
  "sample_data =
     [\<lparr>index = 0, Close = 10, Signal = - 1\<rparr>, \<lparr>index = 1, Close = 10, Signal = 1\<rparr>,
      \<lparr>index = 2, Close = 8, Signal = 1\<rparr>, \<lparr>index = 3, Close = 12, Signal = - 1\<rparr>]"

definition sample_result :: backtest_result where
  "sample_result =
     \<lparr>r_initial_capital = 1005, r_final_value = 1205, r_total_return = Finite (4000 / 201),
      r_total_trades = 2, r_win_rate = 100, r_max_drawdown = Finite (4000 / 201),
      r_trades = [buy_trade 10 100 1000 1, sell_trade 12 100 1200 200 3],
      r_equity_curve =
        [\<lparr>e_date = 1, e_value = 1005\<rparr>, \<lparr>e_date = 2, e_value = 805\<rparr>,
         \<lparr>e_date = 3, e_value = 1205\<rparr>]\<rparr>"


definition sample_final :: backtester where
  "sample_final =
     \<lparr>cash = 1205, position = 0,
      trades = [buy_trade 10 100 1000 1, sell_trade 12 100 1200 200 3],
      equity_curve = r_equity_curve sample_result\<rparr>"


text \<open>
  The ledger of the sample run, and what \<open>apply_risk_management\<close> makes of it with the
  default risk manager: the BUY passes the gate (no drawdown, ratio 2, 2000 shares at a
  fifth of the default capital of 100000), the SELL at 12 is a take-profit exit.
\<close>

definition sample_ledger :: "trade list" where
  "sample_ledger = [buy_trade 10 100 1000 1, sell_trade 12 100 1200 200 3]"

definition sample_managed :: "trade list" where
  "sample_managed =
     [(buy_trade 10 100 1000 1)\<lparr>position_size := Some 2000, stop_loss_price := Some (19 / 2),
         risk_reward := Some 2\<rparr>,
      (sell_trade 12 100 1200 200 3)\<lparr>exit_reason := Some ''take_profit''\<rparr>]"

section \<open>Evaluation and basic facts of the engine\<close>

lemmas run_eval = run_def positions_def reset_def step_def np_truediv_def py_int_def
  track_equity_def buy_trade_def sell_trade_def win_rate_of_def sell_trades_def
  winning_trades_def max_drawdown_of_def Let_def

lemma sample_run: "run 1005 sample_data = Inr sample_result"
  by (simp add: sample_data_def sample_result_def run_eval)

lemma sample_exec:
  "exec_bars (reset 1005) (take 4 (positions sample_data)) = Inr sample_final"
  by (simp add: sample_data_def sample_final_def sample_result_def run_eval)

lemma exec_bars_append:
  "exec_bars b (xs @ ys) =
     (case exec_bars b xs of Inl e \<Rightarrow> Inl e | Inr b' \<Rightarrow> exec_bars b' ys)"
  by (induction xs arbitrary: b) (auto split: sum.splits)

lemma step_None: "step b (r, None) = Inr b"
  by (simp add: step_def)

lemma step_Some_equity:
  assumes "step b (r, Some c) = Inr b'"
  shows "equity_curve b' = equity_curve b @
           [\<lparr>e_date = index r, e_value = cash b' + real_of_int (position b') * Close r\<rparr>]"
  using assms
  by (auto simp: step_def track_equity_def Let_def split: if_splits sum.splits)

lemma exec_bars_equity_prefix:
  "exec_bars b rps = Inr b' \<Longrightarrow> \<exists>zs. equity_curve b' = equity_curve b @ zs"
proof (induction rps arbitrary: b)
  case Nil
  then show ?case by simp
next
  case (Cons rp rps)
  obtain r pos where rp: "rp = (r, pos)" by (cases rp)
  from Cons.prems obtain b1 where s: "step b rp = Inr b1" and e: "exec_bars b1 rps = Inr b'"
    by (auto split: sum.splits)
  from Cons.IH [OF e] obtain zs where zs: "equity_curve b' = equity_curve b1 @ zs" ..
  show ?case
  proof (cases pos)
    case None
    with s rp have "b1 = b" by (simp add: step_None)
    with zs show ?thesis by blast
  next
    case (Some c)
    with s rp step_Some_equity have "\<exists>p. equity_curve b1 = equity_curve b @ [p]" by blast
    with zs show ?thesis by auto
  qed
qed

lemma exec_bars_equity_length:
  "\<forall>rp\<in>set rps. snd rp \<noteq> None \<Longrightarrow> exec_bars b rps = Inr b' \<Longrightarrow>
     length (equity_curve b') = length (equity_curve b) + length rps"
proof (induction rps arbitrary: b)
  case Nil
  then show ?case by simp
next
  case (Cons rp rps)
  obtain r c where rp: "rp = (r, Some c)" using Cons.prems(1) by (cases rp) auto
  from Cons.prems obtain b1 where s: "step b rp = Inr b1" and e: "exec_bars b1 rps = Inr b'"
    by (auto split: sum.splits)
  from s rp have "length (equity_curve b1) = Suc (length (equity_curve b))"
    by (simp add: step_Some_equity)
  moreover from Cons.IH [OF _ e] Cons.prems(1)
  have "length (equity_curve b') = length (equity_curve b1) + length rps" by simp
  ultimately show ?case by simp
qed

lemma diff_from_Some: "\<forall>p\<in>set (zip xs (diff_from s ys)). snd p \<noteq> None"
proof (induction ys arbitrary: s xs)
  case Nil
  then show ?case by simp
next
  case (Cons y ys)
  show ?case
  proof (cases xs)
    case Nil
    then show ?thesis by simp
  next
    case (Cons x xs')
    with Cons.IH [of xs' y] show ?thesis by auto
  qed
qed

lemma length_diff_from [simp]: "length (diff_from s ys) = length ys"
  by (induction ys arbitrary: s) auto

lemma length_diff [simp]: "length (diff ys) = length ys"
  by (cases ys) auto

lemma length_positions [simp]: "length (positions data) = length data"
  by (simp add: positions_def)

lemma positions_Cons:
  "positions (r # rs) = (r, None) # zip rs (diff_from (Signal r) (map Signal rs))"
  by (simp add: positions_def)

lemma positions_tail_Some:
  "0 < i \<Longrightarrow> i < length data \<Longrightarrow> \<exists>c. positions data ! i = (data ! i, Some c)"
proof (cases data)
  case Nil
  assume "i < length data" with Nil show ?thesis by simp
next
  case (Cons r rs)
  assume i: "0 < i" "i < length data"
  then obtain j where j: "i = Suc j" by (cases i) auto
  let ?z = "zip rs (diff_from (Signal r) (map Signal rs))"
  from i j Cons have jl: "j < length ?z" by simp
  then have "?z ! j \<in> set ?z" by (rule nth_mem)
  with diff_from_Some have "snd (?z ! j) \<noteq> None" by blast
  moreover from jl have "fst (?z ! j) = rs ! j" by simp
  ultimately obtain c where "?z ! j = (rs ! j, Some c)" by (cases "?z ! j") auto
  with Cons j show ?thesis by (simp add: positions_Cons)
qed

lemma exec_positions_length:
  assumes "exec_bars (reset ic) (take n (positions data)) = Inr b"
  shows "length (equity_curve b) = min n (length data) - 1"
proof (cases data)
  case Nil
  with assms show ?thesis by (auto simp: positions_def reset_def)
next
  case (Cons r rs)
  show ?thesis
  proof (cases n)
    case 0
    with assms show ?thesis by (auto simp: reset_def)
  next
    case (Suc m)
    let ?z = "zip rs (diff_from (Signal r) (map Signal rs))"
    from assms Cons Suc have e: "exec_bars (reset ic) (take m ?z) = Inr b"
      by (simp add: positions_Cons step_None)
    have "\<forall>rp\<in>set (take m ?z). snd rp \<noteq> None"
      using diff_from_Some by (meson in_set_takeD)
    from exec_bars_equity_length [OF this e]
    show ?thesis using Cons Suc by (simp add: reset_def)
  qed
qed

lemma run_Inr_exec:
  assumes "run ic data = Inr res"
  shows "\<exists>b. exec_bars (reset ic) (positions data) = Inr b
           \<and> r_equity_curve res = equity_curve b
           \<and> r_trades res = trades b \<and> data \<noteq> []
           \<and> max_drawdown_of (map e_value (equity_curve b)) = Inr (r_max_drawdown res)
           \<and> win_rate_of (trades b) = Inr (r_win_rate res)"
  using assms by (auto simp: run_def Let_def split: sum.splits if_splits)


section \<open>The equity curve\<close>

text \<open>
  C1, as stated, fails on the code: the first bar of every input has an undefined change
  marker and is skipped before the equity point is appended. On two bars with a flat
  signal the run returns an equity curve of one point, not two.
\<close>

theorem equity_curve_one_point_per_bar_counterexample:
  "map_sum id r_equity_curve
     (run 1000 [\<lparr>index = 0, Close = 10, Signal = 0\<rparr>, \<lparr>index = 1, Close = 10, Signal = 0\<rparr>])
   = Inr [\<lparr>e_date = 1, e_value = 1000\<rparr>]"
  by (simp add: run_eval)

text \<open>
  C1, amended: whenever \<open>run\<close> returns, the equity curve has one point for every bar but
  the first (the bars whose change marker is defined), in the order of the bars; the
  point of bar \<open>i\<close> carries that bar's timestamp, and its value is the cash after the
  loop has processed bar \<open>i\<close> plus the share count held then times the close of bar \<open>i\<close>.
\<close>

theorem equity_curve_points:
  assumes "run ic data = Inr res"
  shows "length (r_equity_curve res) = length data - 1 \<and>
         (\<forall>i. 0 < i \<and> i < length data \<longrightarrow>
           (\<exists>b. exec_bars (reset ic) (take (Suc i) (positions data)) = Inr b \<and>
                r_equity_curve res ! (i - 1) =
                  \<lparr>e_date = index (data ! i),
                   e_value = cash b + real_of_int (position b) * Close (data ! i)\<rparr>))"
proof (intro conjI)
  from run_Inr_exec [OF assms] obtain bf where
    bf: "exec_bars (reset ic) (positions data) = Inr bf"
    and eq: "r_equity_curve res = equity_curve bf"
    by blast
  from bf have "exec_bars (reset ic) (take (length data) (positions data)) = Inr bf" by simp
  from exec_positions_length [OF this] eq
  show "length (r_equity_curve res) = length data - 1" by simp
  show "\<forall>i. 0 < i \<and> i < length data \<longrightarrow>
           (\<exists>b. exec_bars (reset ic) (take (Suc i) (positions data)) = Inr b \<and>
                r_equity_curve res ! (i - 1) =
                  \<lparr>e_date = index (data ! i),
                   e_value = cash b + real_of_int (position b) * Close (data ! i)\<rparr>)"
  proof (intro allI impI)
    fix i assume i: "0 < i \<and> i < length data"
    let ?ps = "positions data"
    let ?pt = "\<lambda>b. \<lparr>e_date = index (data ! i),
                     e_value = cash b + real_of_int (position b) * Close (data ! i)\<rparr>"
    from i obtain c where c: "?ps ! i = (data ! i, Some c)" using positions_tail_Some by blast
    from i have il: "i < length ?ps" by simp
    have split: "?ps = take i ?ps @ (?ps ! i) # drop (Suc i) ?ps"
      using il by (simp add: id_take_nth_drop)
    have tk: "take (Suc i) ?ps = take i ?ps @ [?ps ! i]"
      using il by (simp add: take_Suc_conv_app_nth)
    from bf split
    have "exec_bars (reset ic) (take i ?ps @ (?ps ! i) # drop (Suc i) ?ps) = Inr bf"
      by simp
    then obtain bm bi where bm: "exec_bars (reset ic) (take i ?ps) = Inr bm"
      and st: "step bm (?ps ! i) = Inr bi"
      and rest: "exec_bars bi (drop (Suc i) ?ps) = Inr bf"
      by (auto simp: exec_bars_append split: sum.splits)
    from bm st have bi: "exec_bars (reset ic) (take (Suc i) ?ps) = Inr bi"
      by (simp add: tk exec_bars_append)
    from exec_positions_length [OF bm] i have lm: "length (equity_curve bm) = i - 1" by simp
    from st c have "equity_curve bi = equity_curve bm @ [?pt bi]"
      by (simp add: step_Some_equity)
    with lm have "equity_curve bi ! (i - 1) = ?pt bi"
      and "i - 1 < length (equity_curve bi)"
      by (simp_all add: nth_append)
    moreover from exec_bars_equity_prefix [OF rest] obtain zs where
      "equity_curve bf = equity_curve bi @ zs" ..
    ultimately have "equity_curve bf ! (i - 1) = ?pt bi"
      by (simp add: nth_append)
    with bi eq show "\<exists>b. exec_bars (reset ic) (take (Suc i) (positions data)) = Inr b \<and>
                r_equity_curve res ! (i - 1) = ?pt b"
      by simp
  qed
qed

theorem equity_curve_points_witness:
  "run 1005 sample_data = Inr sample_result \<and>
   length (r_equity_curve sample_result) = length sample_data - 1 \<and>
   (\<exists>b. exec_bars (reset 1005) (take (Suc 1) (positions sample_data)) = Inr b \<and>
        r_equity_curve sample_result ! (1 - 1) =
          \<lparr>e_date = index (sample_data ! 1),
           e_value = cash b + real_of_int (position b) * Close (sample_data ! 1)\<rparr>)"
proof -
  have "0 < (1::nat) \<and> 1 < length sample_data" by (simp add: sample_data_def)
  with equity_curve_points [OF sample_run] sample_run show ?thesis by blast
qed


section \<open>Runs that raise\<close>

text \<open>
  C10: on an input of exactly one bar the loop skips the bar (its change marker is
  undefined), so the state after the loop is the reset state with an empty equity curve,
  and \<open>run\<close> raises IndexError at \<open>equity_values[0]\<close> instead of returning a result,
  for every initial capital and every bar.
\<close>

theorem run_single_bar_fails:
  "exec_bars (reset ic) (positions [r]) = Inr (reset ic) \<and>
   equity_curve (reset ic) = [] \<and>
   max_drawdown_of (map e_value (equity_curve (reset ic))) = Inl IndexError \<and>
   run ic [r] = Inl IndexError"
  by (simp add: run_def positions_def reset_def step_def win_rate_of_def max_drawdown_of_def)

text \<open>
  C3 at a ledger that holds a BUY and no SELL: the guard of the win rate tests the whole
  ledger, not the SELL trades, so the division by the number of SELL trades raises
  ZeroDivisionError and \<open>run\<close> returns no result. The input is two bars whose signal
  turns from short to long at the second bar.
\<close>

theorem win_rate_buy_only_raises:
  "win_rate_of [buy_trade 10 10000 100000 1] = Inl ZeroDivisionError \<and>
   run 100000 [\<lparr>index = 0, Close = 10, Signal = - 1\<rparr>, \<lparr>index = 1, Close = 10, Signal = 1\<rparr>]
     = Inl ZeroDivisionError"
  by (simp add: run_eval)


section \<open>The trade ledger\<close>

lemma ledger_ok_snoc_other:
  assumes "ledger_ok S ts" and "type t \<noteq> ''SELL''"
  shows "ledger_ok S (ts @ [t])"
  unfolding ledger_ok_def
proof (intro allI impI)
  fix k assume k: "k < length (ts @ [t])" and s: "type ((ts @ [t]) ! k) = ''SELL''"
  from s assms(2) have "k \<noteq> length ts" by auto
  with k have kl: "k < length ts" by simp
  then have "(ts @ [t]) ! k = ts ! k" "(ts @ [t]) ! (k - 1) = ts ! (k - 1)"
    by (simp_all add: nth_append)
  with assms(1) kl s
  show "0 < k \<and> type ((ts @ [t]) ! (k - 1)) = ''BUY'' \<and>
        shares ((ts @ [t]) ! k) = shares ((ts @ [t]) ! (k - 1)) \<and>
        (\<exists>r\<in>S. index r = date ((ts @ [t]) ! k) \<and> Close r = price ((ts @ [t]) ! k)) \<and>
        value ((ts @ [t]) ! k) = real_of_int (shares ((ts @ [t]) ! k)) * price ((ts @ [t]) ! k) \<and>
        profit ((ts @ [t]) ! k) = Some (value ((ts @ [t]) ! k) - value ((ts @ [t]) ! (k - 1)))"
    by (simp add: ledger_ok_def)
qed

lemma ledger_ok_snoc_sell:
  assumes "ledger_ok S ts" and "ts \<noteq> []" and "type (last ts) = ''BUY''"
    and "r \<in> S" and "n = shares (last ts)"
  shows "ledger_ok S (ts @ [sell_trade (Close r) n (real_of_int n * Close r)
            (real_of_int n * Close r - value (last ts)) (index r)])"
  (is "ledger_ok S (ts @ [?t])")
  unfolding ledger_ok_def
proof (intro allI impI)
  fix k assume k: "k < length (ts @ [?t])" and s: "type ((ts @ [?t]) ! k) = ''SELL''"
  let ?g = "\<lambda>us. 0 < k \<and> type (us ! (k - 1)) = ''BUY'' \<and>
        shares (us ! k) = shares (us ! (k - 1)) \<and>
        (\<exists>r\<in>S. index r = date (us ! k) \<and> Close r = price (us ! k)) \<and>
        value (us ! k) = real_of_int (shares (us ! k)) * price (us ! k) \<and>
        profit (us ! k) = Some (value (us ! k) - value (us ! (k - 1)))"
  show "?g (ts @ [?t])"
  proof (cases "k = length ts")
    case True
    from assms(2) have l: "last ts = ts ! (length ts - 1)" by (simp add: last_conv_nth)
    from assms(2) True have "0 < k" by simp
    moreover from True assms(2) have "(ts @ [?t]) ! k = ?t" "(ts @ [?t]) ! (k - 1) = last ts"
      by (simp_all add: nth_append l)
    ultimately show ?thesis using assms(3,4,5)
      by (auto simp: sell_trade_def)
  next
    case False
    with k have kl: "k < length ts" by simp
    then have "(ts @ [?t]) ! k = ts ! k" "(ts @ [?t]) ! (k - 1) = ts ! (k - 1)"
      by (simp_all add: nth_append)
    with assms(1) kl s show ?thesis by (simp add: ledger_ok_def)
  qed
qed

lemma step_Some_cases:
  assumes "step b (r, Some chg) = Inr b'"
  obtains (buy) n where "position b = 0" "np_int (np_truediv (cash b) (Close r)) = Inr n"
      "0 < n"
      "b' = track_equity r
          (b\<lparr>position := n, cash := cash b - real_of_int n * Close r,
             trades := trades b @ [buy_trade (Close r) n (real_of_int n * Close r) (index r)]\<rparr>)"
  | (sell) "0 < position b"
      "b' = track_equity r
          (b\<lparr>cash := cash b + real_of_int (position b) * Close r,
             trades := trades b @ [sell_trade (Close r) (position b)
                 (real_of_int (position b) * Close r)
                 (real_of_int (position b) * Close r -
                    (if trades b \<noteq> [] then value (last (trades b)) else 0)) (index r)],
             position := 0\<rparr>)"
  | (hold) "b' = track_equity r b"
proof (cases "chg = 2 \<and> position b = 0")
  case True
  show thesis
  proof (cases "np_int (np_truediv (cash b) (Close r))")
    case (Inl e)
    with assms True show thesis by (simp add: step_def)
  next
    case (Inr n)
    show thesis
    proof (cases "0 < n")
      case pos: True
      with assms True Inr show thesis by (intro buy [of n]) (simp_all add: step_def Let_def)
    next
      case False
      with assms True Inr show thesis by (intro hold) (simp add: step_def)
    qed
  qed
next
  case nb: False
  show thesis
  proof (cases "chg = - 2 \<and> 0 < position b")
    case True
    with assms nb show thesis by (intro sell) (simp_all add: step_def Let_def)
  next
    case False
    with assms nb show thesis by (intro hold) (simp add: step_def)
  qed
qed

lemma step_ledger:
  assumes "step b (r, pos) = Inr b'" and "open_ok b" and "ledger_ok S (trades b)" and "r \<in> S"
  shows "open_ok b' \<and> ledger_ok S (trades b')"
proof (cases pos)
  case None
  with assms show ?thesis by (simp add: step_None)
next
  case (Some chg)
  with assms(1) have "step b (r, Some chg) = Inr b'" by simp
  then show ?thesis
  proof (cases rule: step_Some_cases)
    case (buy n)
    have "type (buy_trade (Close r) n (real_of_int n * Close r) (index r)) \<noteq> ''SELL''"
      by (simp add: buy_trade_def)
    from ledger_ok_snoc_other [OF assms(3) this] buy
    show ?thesis by (simp add: open_ok_def track_equity_def buy_trade_def)
  next
    case sell
    let ?n = "position b"
    from sell assms(2) have o: "trades b \<noteq> []" "type (last (trades b)) = ''BUY''"
      "?n = shares (last (trades b))"
      by (simp_all add: open_ok_def)
    from ledger_ok_snoc_sell [OF assms(3) o(1) o(2) assms(4) o(3)] sell(2) o(1)
    show ?thesis by (simp add: open_ok_def track_equity_def)
  next
    case hold
    with assms(2,3) show ?thesis by (simp add: open_ok_def track_equity_def)
  qed
qed

lemma exec_bars_ledger:
  "exec_bars b rps = Inr b' \<Longrightarrow> open_ok b \<Longrightarrow> ledger_ok S (trades b) \<Longrightarrow>
     fst ` set rps \<subseteq> S \<Longrightarrow> open_ok b' \<and> ledger_ok S (trades b')"
proof (induction rps arbitrary: b)
  case Nil
  then show ?case by simp
next
  case (Cons rp rps)
  obtain r pos where rp: "rp = (r, pos)" by (cases rp)
  from Cons.prems(1) obtain b1 where s: "step b rp = Inr b1" and e: "exec_bars b1 rps = Inr b'"
    by (auto split: sum.splits)
  from Cons.prems(4) rp have "r \<in> S" by simp
  from step_ledger [OF s [unfolded rp] Cons.prems(2,3) this]
  have "open_ok b1" "ledger_ok S (trades b1)" by simp_all
  from Cons.IH [OF e this] Cons.prems(4) show ?case by simp
qed

lemma positions_rows: "fst ` set (take n (positions data)) \<subseteq> set data"
proof
  fix r assume "r \<in> fst ` set (take n (positions data))"
  then obtain p where "(r, p) \<in> set (take n (positions data))" by auto
  then have "(r, p) \<in> set (positions data)" by (rule in_set_takeD)
  then show "r \<in> set data" unfolding positions_def by (rule set_zip_leftD)
qed

text \<open>
  C7: in the ledger after any number of loop iterations, every SELL trade has a
  predecessor, which is the BUY that opened the position it closes (same share count);
  the SELL is priced at the close of a bar of the input, its value is shares times that
  price, and its recorded profit is its value minus the value recorded on that BUY.
\<close>

theorem sell_profit_matches_entry:
  assumes "exec_bars (reset ic) (take n (positions data)) = Inr b"
    and "k < length (trades b)" and "type (trades b ! k) = ''SELL''"
  shows "0 < k \<and> type (trades b ! (k - 1)) = ''BUY'' \<and>
         shares (trades b ! k) = shares (trades b ! (k - 1)) \<and>
         (\<exists>r\<in>set data. index r = date (trades b ! k) \<and> Close r = price (trades b ! k)) \<and>
         value (trades b ! k) = real_of_int (shares (trades b ! k)) * price (trades b ! k) \<and>
         profit (trades b ! k) = Some (value (trades b ! k) - value (trades b ! (k - 1)))"
proof -
  have "open_ok (reset ic)" "ledger_ok (set data) (trades (reset ic))"
    by (simp_all add: open_ok_def ledger_ok_def reset_def)
  from exec_bars_ledger [OF assms(1) this positions_rows]
  have "ledger_ok (set data) (trades b)" by simp
  with assms(2,3) show ?thesis unfolding ledger_ok_def by blast
qed


theorem sell_profit_matches_entry_witness:
  "exec_bars (reset 1005) (take 4 (positions sample_data)) = Inr sample_final \<and>
   1 < length (trades sample_final) \<and> type (trades sample_final ! 1) = ''SELL'' \<and>
   type (trades sample_final ! (1 - 1)) = ''BUY'' \<and>
   profit (trades sample_final ! 1) =
     Some (value (trades sample_final ! 1) - value (trades sample_final ! (1 - 1))) \<and>
   profit (trades sample_final ! 1) = Some 200"
proof -
  have h2: "1 < length (trades sample_final)" by (simp add: sample_final_def)
  have h3: "type (trades sample_final ! 1) = ''SELL''"
    by (simp add: sample_final_def sell_trade_def)
  have "profit (trades sample_final ! 1) = Some 200"
    by (simp add: sample_final_def sell_trade_def)
  with sell_profit_matches_entry [OF sample_exec h2 h3] sample_exec h2 h3
  show ?thesis by blast
qed



section \<open>Truncation\<close>

lemma py_int_nonpos: "x \<le> 0 \<Longrightarrow> py_int x \<le> 0"
  by (auto simp: py_int_def ceiling_le_zero intro: order_trans [of _ x])

lemma py_int_pos_floor:
  assumes "0 < py_int x"
  shows "py_int x = \<lfloor>x\<rfloor> \<and> 0 \<le> x"
proof (cases "0 \<le> x")
  case True
  then show ?thesis by (simp add: py_int_def)
next
  case False
  then have "\<lceil>x\<rceil> \<le> 0" by (simp add: ceiling_le_zero)
  with False assms show ?thesis by (simp add: py_int_def)
qed


section \<open>The maximum drawdown\<close>

lemma running_peak_0 [simp]: "running_peak (v # vs) 0 = v"
  by (simp add: running_peak_def)

lemma running_peak_Suc: "running_peak (v # vs) (Suc i) = (if vs = [] then v else max v (running_peak vs i))"
  by (simp add: running_peak_def)

lemma max_running_peak_Suc:
  "i < length vs \<Longrightarrow> max p (running_peak (v # vs) (Suc i)) = max (max p v) (running_peak vs i)"
  by (auto simp: running_peak_Suc max.assoc)

lemma drawdown_from_Suc:
  "i < length vs \<Longrightarrow> drawdown_from p (v # vs) (Suc i) = drawdown_from (max p v) vs i"
  by (simp add: drawdown_from_def max_running_peak_Suc)

lemma Max_insert_insert:
  "finite S \<Longrightarrow> Max (insert a (insert b S)) = Max (insert (max a b) S)"
  by (cases "S = {}") (simp_all add: max.assoc)

lemma np_gt_Finite_if:
  "(if np_gt (Finite d) (Finite m) then Finite d else Finite m) = Finite (max m d)"
  by (simp add: max_def)

lemma drawdown_loop_Finite:
  assumes "\<forall>i<length vs. max p (running_peak vs i) \<noteq> 0"
  shows "drawdown_loop p (Finite m) vs =
           Finite (Max (set (m # map (drawdown_from p vs) [0..<length vs])))"
  using assms
proof (induction vs arbitrary: p m)
  case Nil
  then show ?case by simp
next
  case (Cons v vs)
  let ?p = "max p v"
  let ?d = "(?p - v) / ?p * 100"
  from Cons.prems have nz: "?p \<noteq> 0" by fastforce
  have peak: "(if v > p then v else p) = ?p" by (simp add: max_def)
  have ih_pre: "\<forall>i<length vs. max ?p (running_peak vs i) \<noteq> 0"
  proof (intro allI impI)
    fix i assume i: "i < length vs"
    then have "Suc i < length (v # vs)" by simp
    with Cons.prems have "max p (running_peak (v # vs) (Suc i)) \<noteq> 0" by blast
    with i show "max ?p (running_peak vs i) \<noteq> 0" by (simp add: max_running_peak_Suc)
  qed
  have td: "np_truediv (?p - v) ?p = Finite ((?p - v) / ?p)"
    using nz by (simp add: np_truediv_def)
  have step: "drawdown_loop p (Finite m) (v # vs) = drawdown_loop ?p (Finite (max m ?d)) vs"
    by (simp only: drawdown_loop.simps peak Let_def td np_times100.simps np_gt_Finite_if)
  have d0: "drawdown_from p (v # vs) 0 = ?d" by (simp add: drawdown_from_def)
  have tl: "map (drawdown_from p (v # vs)) (map Suc [0..<length vs]) =
            map (drawdown_from ?p vs) [0..<length vs]"
    by (simp add: drawdown_from_Suc)
  have idx: "[0..<length (v # vs)] = 0 # map Suc [0..<length vs]"
    by (simp add: upt_conv_Cons map_Suc_upt del: upt_Suc)
  have "set (m # map (drawdown_from p (v # vs)) [0..<length (v # vs)]) =
        insert m (insert ?d (set (map (drawdown_from ?p vs) [0..<length vs])))"
    unfolding idx using d0 tl by simp
  then have "Max (set (m # map (drawdown_from p (v # vs)) [0..<length (v # vs)])) =
        Max (insert (max m ?d) (set (map (drawdown_from ?p vs) [0..<length vs])))"
    by (simp only: Max_insert_insert [OF finite_set])
  with Cons.IH [OF ih_pre, of "max m ?d"] step show ?case by simp
qed

lemma running_peak_ge_hd:
  "i < length (v # vs) \<Longrightarrow> v \<le> running_peak (v # vs) i"
  by (simp add: running_peak_def)

lemma max_drawdown_of_spec:
  assumes "\<forall>i<length vs. running_peak vs i \<noteq> 0" and "vs \<noteq> []"
  shows "max_drawdown_of vs = Inr (Finite (spec_max_drawdown vs))"
proof -
  from assms(2) obtain v ws where vs: "vs = v # ws" by (cases vs) auto
  have mx: "\<forall>i<length vs. max v (running_peak vs i) = running_peak vs i"
    using running_peak_ge_hd vs by (simp add: max_def)
  then have pre: "\<forall>i<length vs. max v (running_peak vs i) \<noteq> 0" using assms(1) by simp
  have eq: "map (drawdown_from v vs) [0..<length vs] = map (drawdown_pct vs) [0..<length vs]"
    using mx by (simp add: drawdown_from_def drawdown_pct_def)
  have "drawdown_pct vs 0 = 0" by (simp add: drawdown_pct_def vs)
  moreover have "0 \<in> set [0..<length vs]" using vs by simp
  ultimately have "0 \<in> set (map (drawdown_pct vs) [0..<length vs])"
    by (metis image_eqI set_map)
  then have "set (0 # map (drawdown_pct vs) [0..<length vs]) = set (map (drawdown_pct vs) [0..<length vs])"
    by auto
  with drawdown_loop_Finite [OF pre, of 0] eq
  have "drawdown_loop v (Finite 0) vs = Finite (spec_max_drawdown vs)"
    by (simp add: spec_max_drawdown_def)
  then show ?thesis by (simp add: max_drawdown_of_def vs)
qed

lemma np_gt_nonneg: "np_gt d m \<Longrightarrow> np_nonneg m \<Longrightarrow> np_nonneg d"
  by (cases d; cases m) auto

lemma drawdown_loop_nonneg: "np_nonneg m \<Longrightarrow> np_nonneg (drawdown_loop p m vs)"
proof (induction vs arbitrary: p m)
  case Nil
  then show ?case by simp
next
  case (Cons v vs)
  show ?case
    unfolding drawdown_loop.simps Let_def
    by (rule Cons.IH) (use Cons.prems np_gt_nonneg in auto)
qed

lemma max_drawdown_of_nonneg:
  assumes "max_drawdown_of vs = Inr d"
  shows "np_nonneg d"
proof (cases vs)
  case Nil
  with assms show ?thesis by (simp add: max_drawdown_of_def)
next
  case (Cons v ws)
  with assms have "d = drawdown_loop v (Finite 0) (v # ws)"
    by (simp add: max_drawdown_of_def del: drawdown_loop.simps)
  moreover have "np_nonneg (Finite 0)" by simp
  ultimately show ?thesis by (simp only: drawdown_loop_nonneg)
qed

lemma solvent_track_equity:
  assumes "0 \<le> cash b" "0 \<le> position b" "position b = 0 \<longrightarrow> 0 < cash b"
    "\<forall>p\<in>set (equity_curve b). 0 < e_value p" "0 < Close r"
  shows "solvent (track_equity r b)"
proof -
  have "0 < cash b + real_of_int (position b) * Close r"
  proof (cases "position b = 0")
    case True
    with assms(3) show ?thesis by simp
  next
    case False
    with assms(2) have "0 < real_of_int (position b)" by simp
    with assms(5) have "0 < real_of_int (position b) * Close r" by simp
    with assms(1) show ?thesis by linarith
  qed
  with assms show ?thesis by (simp add: solvent_def track_equity_def)
qed

lemma step_solvent:
  assumes "step b (r, pos) = Inr b'" and "solvent b" and "0 < Close r"
  shows "solvent b'"
proof (cases pos)
  case None
  with assms show ?thesis by (simp add: step_None)
next
  case (Some chg)
  with assms(1) have "step b (r, Some chg) = Inr b'" by simp
  then show ?thesis
  proof (cases rule: step_Some_cases)
    case (buy n)
    let ?p = "Close r"
    from buy(2) assms(3) have n: "n = py_int (cash b / ?p)"
      by (simp add: np_truediv_def)
    with buy(3) py_int_pos_floor [of "cash b / ?p"]
    have "n = \<lfloor>cash b / ?p\<rfloor>" by simp
    then have "real_of_int n \<le> cash b / ?p" by simp
    with assms(3) have le: "real_of_int n * ?p \<le> cash b"
      by (simp add: pos_le_divide_eq)
    show ?thesis unfolding buy(4)
      by (rule solvent_track_equity) (use le buy(3) assms(2,3) in \<open>simp_all add: solvent_def\<close>)
  next
    case sell
    from sell(1) assms(3) have "0 < real_of_int (position b) * Close r" by simp
    moreover from assms(2) have "0 \<le> cash b" by (simp add: solvent_def)
    ultimately have "0 < cash b + real_of_int (position b) * Close r" by linarith
    then show ?thesis unfolding sell(2)
      by (intro solvent_track_equity) (use assms(2,3) in \<open>simp_all add: solvent_def\<close>)
  next
    case hold
    show ?thesis unfolding hold
      by (rule solvent_track_equity) (use assms(2,3) in \<open>simp_all add: solvent_def\<close>)
  qed
qed

lemma exec_bars_solvent:
  "exec_bars b rps = Inr b' \<Longrightarrow> solvent b \<Longrightarrow> \<forall>rp\<in>set rps. 0 < Close (fst rp) \<Longrightarrow>
     solvent b'"
proof (induction rps arbitrary: b)
  case Nil
  then show ?case by simp
next
  case (Cons rp rps)
  obtain r pos where rp: "rp = (r, pos)" by (cases rp)
  from Cons.prems(1) obtain b1 where s: "step b rp = Inr b1" and e: "exec_bars b1 rps = Inr b'"
    by (auto split: sum.splits)
  from Cons.prems(3) rp have "0 < Close r" by simp
  from step_solvent [OF s [unfolded rp] Cons.prems(2) this] have "solvent b1" .
  from Cons.IH [OF e this] Cons.prems(3) show ?case by simp
qed

lemma positions_pos:
  assumes "\<forall>r\<in>set data. 0 < Close r"
  shows "\<forall>rp\<in>set (take n (positions data)). 0 < Close (fst rp)"
proof
  fix rp assume "rp \<in> set (take n (positions data))"
  then have "fst rp \<in> fst ` set (take n (positions data))" by (rule imageI)
  with positions_rows [of n data] have "fst rp \<in> set data" by (rule subsetD)
  with assms show "0 < Close (fst rp)" by (rule bspec)
qed

lemma running_peak_pos:
  assumes "\<forall>v\<in>set vs. 0 < v" and "i < length vs"
  shows "0 < running_peak vs i"
proof -
  from assms(2) have ne: "set (take (Suc i) vs) \<noteq> {}" by (cases vs) auto
  then have "Max (set (take (Suc i) vs)) \<in> set (take (Suc i) vs)" by (intro Max_in) simp
  then have "Max (set (take (Suc i) vs)) \<in> set vs" by (rule in_set_takeD)
  with assms(1) show ?thesis by (simp add: running_peak_def)
qed

text \<open>
  C6: whenever \<open>run\<close> returns, the maximum drawdown it reports is not negative. It is
  the largest, over the equity curve, of (running peak - value) / running peak as a
  percentage, the running peak being the largest value so far, whenever no running peak
  is zero (the quotient is undefined at a zero peak); this is the case for every run
  with a positive initial capital on bars with positive closing prices. On the equity
  values 100, 120, 90, 110 the scan and the specification's maximum are both 25.
\<close>

theorem max_drawdown_running_peak:
  assumes "run ic data = Inr res"
  shows "np_nonneg (r_max_drawdown res) \<and>
    ((\<forall>i<length (r_equity_curve res).
        running_peak (map e_value (r_equity_curve res)) i \<noteq> 0) \<longrightarrow>
      r_max_drawdown res = Finite (spec_max_drawdown (map e_value (r_equity_curve res)))) \<and>
    (0 < ic \<and> (\<forall>r\<in>set data. 0 < Close r) \<longrightarrow>
      r_max_drawdown res = Finite (spec_max_drawdown (map e_value (r_equity_curve res)))) \<and>
    max_drawdown_of [100, 120, 90, 110] = Inr (Finite 25) \<and>
    spec_max_drawdown [100, 120, 90, 110] = 25"
proof -
  let ?vs = "map e_value (r_equity_curve res)"
  from run_Inr_exec [OF assms] obtain b where
    ex: "exec_bars (reset ic) (positions data) = Inr b"
    and eq: "r_equity_curve res = equity_curve b"
    and md: "max_drawdown_of (map e_value (equity_curve b)) = Inr (r_max_drawdown res)"
    by blast
  from md eq have md': "max_drawdown_of ?vs = Inr (r_max_drawdown res)" by simp
  then have ne: "?vs \<noteq> []" by (auto simp: max_drawdown_of_def)
  have a: "np_nonneg (r_max_drawdown res)" using md' by (rule max_drawdown_of_nonneg)
  have b: "r_max_drawdown res = Finite (spec_max_drawdown ?vs)"
    if "\<forall>i<length ?vs. running_peak ?vs i \<noteq> 0"
    using max_drawdown_of_spec [OF that ne] md' by simp
  have c: "r_max_drawdown res = Finite (spec_max_drawdown ?vs)"
    if h: "0 < ic \<and> (\<forall>r\<in>set data. 0 < Close r)"
  proof -
    from h have "solvent (reset ic)" by (simp add: solvent_def reset_def)
    moreover from h have "\<forall>rp\<in>set (take (length data) (positions data)). 0 < Close (fst rp)"
      by (intro positions_pos) simp
    ultimately have "solvent b" using exec_bars_solvent [OF ex] by simp
    with eq have "\<forall>v\<in>set ?vs. 0 < v" by (simp add: solvent_def)
    with running_peak_pos have "\<forall>i<length ?vs. running_peak ?vs i \<noteq> 0" by fastforce
    then show ?thesis by (rule b)
  qed
  have d: "max_drawdown_of [100, 120, 90, 110] = Inr (Finite 25)"
    by (simp add: max_drawdown_of_def np_truediv_def)
  have e: "spec_max_drawdown [100, 120, 90, 110] = 25"
    by (simp add: spec_max_drawdown_def drawdown_pct_def running_peak_def upt_rec)
  from a b c d e show ?thesis by simp
qed

theorem max_drawdown_running_peak_witness:
  "run 1005 sample_data = Inr sample_result \<and> 0 < (1005 :: real) \<and>
   list_all (\<lambda>r. 0 < Close r) sample_data \<and>
   np_nonneg (r_max_drawdown sample_result) \<and>
   r_max_drawdown sample_result =
     Finite (spec_max_drawdown (map e_value (r_equity_curve sample_result))) \<and>
   r_max_drawdown sample_result = Finite (4000 / 201)"
proof -
  have l: "list_all (\<lambda>r. 0 < Close r) sample_data" by (simp add: sample_data_def)
  then have h: "0 < (1005 :: real) \<and> (\<forall>r\<in>set sample_data. 0 < Close r)"
    by (simp add: list_all_iff)
  have v: "r_max_drawdown sample_result = Finite (4000 / 201)" by (simp add: sample_result_def)
  from max_drawdown_running_peak [OF sample_run] h sample_run l v show ?thesis by blast
qed


section \<open>The risk gate\<close>

lemma update_drawdown_fst_peak:
  "peak_value (fst (update_drawdown rm v)) = max (peak_value rm) v"
  by (simp add: update_drawdown_def py_truediv_def Let_def max_def)

lemma update_drawdown_snd:
  "snd (update_drawdown rm v) =
     (if max (peak_value rm) v = 0 then Inl ZeroDivisionError
      else Inr \<lparr>d_current_drawdown = (max (peak_value rm) v - v) / max (peak_value rm) v,
               d_max_drawdown = max_drawdown_pct rm,
               d_peak_value = max (peak_value rm) v,
               d_halt_trading =
                 ((max (peak_value rm) v - v) / max (peak_value rm) v \<ge> max_drawdown_pct rm)\<rparr>)"
  by (simp add: update_drawdown_def py_truediv_def Let_def max_def)

lemma update_drawdown_fst_frame:
  "max_drawdown_pct (fst (update_drawdown rm v)) = max_drawdown_pct rm"
  "stop_loss_pct (fst (update_drawdown rm v)) = stop_loss_pct rm"
  "take_profit_pct (fst (update_drawdown rm v)) = take_profit_pct rm"
  "max_position_size (fst (update_drawdown rm v)) = max_position_size rm"
  by (simp_all add: update_drawdown_def py_truediv_def Let_def)

lemma should_enter_trade_fst:
  "fst (should_enter_trade rm c e t) = fst (update_drawdown rm c)"
  by (cases "update_drawdown rm c")
     (auto simp: should_enter_trade_def Let_def split: sum.splits)

lemma rm_call_apply_peak: "peak_value (rm_call_apply rm c) = max (peak_value rm) (case c of Update_drawdown v \<Rightarrow> v | Should_enter_trade a _ _ \<Rightarrow> a)"
  by (cases c) (simp_all add: should_enter_trade_fst update_drawdown_fst_peak)

lemma rm_calls_peak_mono: "peak_value rm \<le> peak_value (rm_calls rm cs)"
  unfolding rm_calls_def
proof (induction cs arbitrary: rm)
  case Nil
  then show ?case by simp
next
  case (Cons c cs)
  have "peak_value rm \<le> peak_value (rm_call_apply rm c)"
    by (simp add: rm_call_apply_peak)
  also have "\<dots> \<le> peak_value (foldl rm_call_apply (rm_call_apply rm c) cs)"
    by (rule Cons.IH)
  finally show ?case by simp
qed

text \<open>
  C9: over every sequence of \<open>update_drawdown\<close> and \<open>should_enter_trade\<close> calls on one
  instance the peak never falls: a longer sequence of calls leaves a peak at least as
  high, and each call leaves the larger of the old peak and the value it is given, also
  when it raises. A call whose peak is not zero returns the drawdown
  (peak - value) / peak, the configured limit, the peak, and the halt flag, which is true
  exactly when the drawdown has reached the limit; at a zero peak the division raises.
\<close>

theorem peak_value_ratchet:
  "peak_value (rm_calls rm cs) \<le> peak_value (rm_calls rm (cs @ cs')) \<and>
   peak_value (fst (update_drawdown rm v)) = max (peak_value rm) v \<and>
   peak_value (fst (should_enter_trade rm c e t)) = max (peak_value rm) c \<and>
   (max (peak_value rm) v \<noteq> 0 \<longrightarrow>
      snd (update_drawdown rm v) =
        Inr \<lparr>d_current_drawdown = (max (peak_value rm) v - v) / max (peak_value rm) v,
             d_max_drawdown = max_drawdown_pct rm,
             d_peak_value = max (peak_value rm) v,
             d_halt_trading =
               ((max (peak_value rm) v - v) / max (peak_value rm) v \<ge> max_drawdown_pct rm)\<rparr>) \<and>
   (max (peak_value rm) v = 0 \<longrightarrow> snd (update_drawdown rm v) = Inl ZeroDivisionError)"
proof -
  have "rm_calls rm (cs @ cs') = rm_calls (rm_calls rm cs) cs'"
    by (simp add: rm_calls_def)
  then have "peak_value (rm_calls rm cs) \<le> peak_value (rm_calls rm (cs @ cs'))"
    by (simp add: rm_calls_peak_mono)
  then show ?thesis
    by (simp add: update_drawdown_fst_peak should_enter_trade_fst update_drawdown_snd)
qed

theorem peak_value_ratchet_witness:
  "peak_value (rm_calls default_RiskManager [Update_drawdown 120000])
     \<le> peak_value (rm_calls default_RiskManager
          ([Update_drawdown 120000] @ [Should_enter_trade 90000 100 130])) \<and>
   peak_value (rm_calls default_RiskManager
          ([Update_drawdown 120000] @ [Should_enter_trade 90000 100 130])) = 120000 \<and>
   max (peak_value default_RiskManager) 90000 \<noteq> 0 \<and>
   snd (update_drawdown default_RiskManager 90000) =
     Inr \<lparr>d_current_drawdown = 1 / 10, d_max_drawdown = 20 / 100, d_peak_value = 100000,
          d_halt_trading = False\<rparr>"
proof -
  have nz: "max (peak_value default_RiskManager) 90000 \<noteq> 0"
    by (simp add: default_RiskManager_def RiskManager_init_def)
  have pk: "peak_value (rm_calls default_RiskManager
          ([Update_drawdown 120000] @ [Should_enter_trade 90000 100 130])) = 120000"
    by (simp add: rm_calls_def should_enter_trade_fst update_drawdown_fst_peak
        default_RiskManager_def RiskManager_init_def)
  from peak_value_ratchet [of default_RiskManager "[Update_drawdown 120000]"
      "[Should_enter_trade 90000 100 130]" 90000] nz
  have "peak_value (rm_calls default_RiskManager [Update_drawdown 120000])
     \<le> peak_value (rm_calls default_RiskManager
          ([Update_drawdown 120000] @ [Should_enter_trade 90000 100 130]))"
    and "snd (update_drawdown default_RiskManager 90000) =
        Inr \<lparr>d_current_drawdown = (max (peak_value default_RiskManager) 90000 - 90000)
                 / max (peak_value default_RiskManager) 90000,
             d_max_drawdown = max_drawdown_pct default_RiskManager,
             d_peak_value = max (peak_value default_RiskManager) 90000,
             d_halt_trading =
               ((max (peak_value default_RiskManager) 90000 - 90000)
                  / max (peak_value default_RiskManager) 90000
                \<ge> max_drawdown_pct default_RiskManager)\<rparr>"
    by blast+
  then show ?thesis using nz pk
    by (simp add: default_RiskManager_def RiskManager_init_def)
qed


text \<open>
  C4, as stated, fails on the code: the drawdown check comes before the risk/reward
  check. With the default instance (peak 100000, limit 0.20) a capital of 50000 is a
  drawdown of one half, and the entry at 100 with target 105 is rejected with the
  maximum-drawdown reason, not the poor-risk/reward reason.
\<close>

theorem should_enter_regardless_counterexample:
  "snd (should_enter_trade default_RiskManager 50000 100 105)
     = Inr (Maximum_drawdown_exceeded (1 / 2))"
  by (simp add: should_enter_trade_def update_drawdown_def py_truediv_def
      default_RiskManager_def RiskManager_init_def Let_def)

text \<open>
  C4, amended: with a stop loss of 0.05, an entry at 100 with target 105 has the
  stop-loss price 95 and the risk/reward ratio 1, and the call never approves the entry.
  It rejects with the poor-risk/reward reason (ratio 1) exactly when the drawdown of the
  capital against the ratcheted peak is below the limit; when the drawdown has reached
  the limit it rejects with the maximum-drawdown reason, and at a zero peak the drawdown
  division raises.
\<close>

theorem should_enter_100_105:
  assumes "stop_loss_pct rm = 5 / 100"
  shows "100 * (1 - stop_loss_pct rm) = 95 \<and>
    calculate_risk_reward_ratio 100 105 (100 * (1 - stop_loss_pct rm)) = 1 \<and>
    snd (should_enter_trade rm capital 100 105) =
      (if max (peak_value rm) capital = 0 then Inl ZeroDivisionError
       else if (max (peak_value rm) capital - capital) / max (peak_value rm) capital
                 \<ge> max_drawdown_pct rm
       then Inr (Maximum_drawdown_exceeded
                   ((max (peak_value rm) capital - capital) / max (peak_value rm) capital))
       else Inr (Poor_risk_reward 1))"
proof -
  have a: "100 * (1 - stop_loss_pct rm) = 95" using assms by simp
  have b: "calculate_risk_reward_ratio 100 105 (100 * (1 - stop_loss_pct rm)) = 1"
    unfolding a by (simp add: calculate_risk_reward_ratio_def)
  obtain rm' res where u: "update_drawdown rm capital = (rm', res)"
    by (cases "update_drawdown rm capital")
  then have res: "res = snd (update_drawdown rm capital)" by simp
  have c: "snd (should_enter_trade rm capital 100 105) =
      (if max (peak_value rm) capital = 0 then Inl ZeroDivisionError
       else if (max (peak_value rm) capital - capital) / max (peak_value rm) capital
                 \<ge> max_drawdown_pct rm
       then Inr (Maximum_drawdown_exceeded
                   ((max (peak_value rm) capital - capital) / max (peak_value rm) capital))
       else Inr (Poor_risk_reward 1))"
  proof (cases "max (peak_value rm) capital = 0")
    case True
    with res have "res = Inl ZeroDivisionError" by (simp add: update_drawdown_snd)
    with True show ?thesis by (simp add: should_enter_trade_def u Let_def)
  next
    case False
    let ?dd = "(max (peak_value rm) capital - capital) / max (peak_value rm) capital"
    from False res have "res = Inr \<lparr>d_current_drawdown = ?dd,
        d_max_drawdown = max_drawdown_pct rm, d_peak_value = max (peak_value rm) capital,
        d_halt_trading = (?dd \<ge> max_drawdown_pct rm)\<rparr>"
      by (simp add: update_drawdown_snd)
    moreover have "calculate_risk_reward_ratio 100 105 (100 - 100 * stop_loss_pct rm) = 1"
      using assms by (simp add: calculate_risk_reward_ratio_def)
    ultimately show ?thesis using False by (simp add: should_enter_trade_def u Let_def)
  qed
  from a b c show ?thesis by blast
qed

theorem should_enter_100_105_witness:
  "stop_loss_pct default_RiskManager = 5 / 100 \<and>
   100 * (1 - stop_loss_pct default_RiskManager) = 95 \<and>
   calculate_risk_reward_ratio 100 105 (100 * (1 - stop_loss_pct default_RiskManager)) = 1 \<and>
   snd (should_enter_trade default_RiskManager 100000 100 105) = Inr (Poor_risk_reward 1)"
proof -
  have h: "stop_loss_pct default_RiskManager = 5 / 100"
    by (simp add: default_RiskManager_def RiskManager_init_def)
  have p: "peak_value default_RiskManager = 100000" "max_drawdown_pct default_RiskManager = 20 / 100"
    by (simp_all add: default_RiskManager_def RiskManager_init_def)
  from should_enter_100_105 [OF h, of 100000]
  have "snd (should_enter_trade default_RiskManager 100000 100 105) = Inr (Poor_risk_reward 1)"
    and "100 * (1 - stop_loss_pct default_RiskManager) = 95"
    and "calculate_risk_reward_ratio 100 105 (100 * (1 - stop_loss_pct default_RiskManager)) = 1"
    by (simp_all add: p)
  with h show ?thesis by blast
qed


section \<open>The risk-management pass over a ledger\<close>

lemma unannotated_annotations [simp]:
  "unannotated (t\<lparr>position_size := a, stop_loss_price := b, risk_reward := c\<rparr>) = unannotated t"
  "unannotated (t\<lparr>exit_reason := d\<rparr>) = unannotated t"
  by (simp_all add: unannotated_def)

lemma managed_loop_Cons_cases:
  obtains (raise) rm' e where "managed_loop rm m cp (t # ts) = (rm', Inl e)"
  | (skip) rm' where "managed_loop rm m cp (t # ts) = managed_loop rm' m cp ts"
  | (keep) rm' t' cp' where "unannotated t' = unannotated t"
      "managed_loop rm m cp (t # ts) = managed_loop rm' (m @ [t']) cp' ts"
proof (cases "type t = ''BUY''")
  case True
  let ?r = "should_enter_trade rm (case available_capital t of None \<Rightarrow> 100000 | Some c \<Rightarrow> c)
              (price t) (price t * (1 + take_profit_pct rm))"
  obtain rm' res where r: "?r = (rm', res)" by (cases ?r)
  show thesis
  proof (cases res)
    case (Inl e)
    with True r show thesis by (intro raise [of rm' e]) (simp add: Let_def)
  next
    case (Inr d)
    show thesis
    proof (cases d)
      case (Enter psize slp rr ml)
      let ?t' = "t\<lparr>position_size := Some psize, stop_loss_price := Some slp,
                    risk_reward := Some rr\<rparr>"
      have "unannotated ?t' = unannotated t" by simp
      moreover from True r Inr Enter
      have "managed_loop rm m cp (t # ts) = managed_loop rm' (m @ [?t']) (Some ?t') ts"
        by (simp add: Let_def)
      ultimately show thesis by (rule keep)
    next
      case (Maximum_drawdown_exceeded x)
      with True r Inr show thesis by (intro skip [of rm']) (simp add: Let_def)
    next
      case (Poor_risk_reward x)
      with True r Inr show thesis by (intro skip [of rm']) (simp add: Let_def)
    next
      case (Insufficient_capital x)
      with True r Inr show thesis by (intro skip [of rm']) (simp add: Let_def)
    qed
  qed
next
  case nb: False
  show thesis
  proof (cases "type t = ''SELL'' \<and> cp \<noteq> None")
    case False
    with nb show thesis by (intro skip [of rm]) auto
  next
    case True
    let ?sl = "check_stop_loss rm (price (the cp)) (price t)"
    let ?tp = "check_take_profit rm (price (the cp)) (price t)"
    show thesis
    proof (cases ?sl)
      case (Inl e)
      with nb True show thesis by (intro raise [of rm e]) simp
    next
      case sl: (Inr hit)
      show thesis
      proof (cases hit)
        case True
        have "unannotated (t\<lparr>exit_reason := Some ''stop_loss''\<rparr>) = unannotated t" by simp
        moreover from nb \<open>type t = ''SELL'' \<and> cp \<noteq> None\<close> sl True
        have "managed_loop rm m cp (t # ts) =
            managed_loop rm (m @ [t\<lparr>exit_reason := Some ''stop_loss''\<rparr>]) None ts"
          by simp
        ultimately show thesis by (rule keep)
      next
        case nsl: False
        show thesis
        proof (cases ?tp)
          case (Inl e)
          with nb \<open>type t = ''SELL'' \<and> cp \<noteq> None\<close> sl nsl show thesis
            by (intro raise [of rm e]) simp
        next
          case tp: (Inr hit2)
          show thesis
          proof (cases hit2)
            case True
            have "unannotated (t\<lparr>exit_reason := Some ''take_profit''\<rparr>) = unannotated t" by simp
            moreover from nb \<open>type t = ''SELL'' \<and> cp \<noteq> None\<close> sl nsl tp True
            have "managed_loop rm m cp (t # ts) =
                managed_loop rm (m @ [t\<lparr>exit_reason := Some ''take_profit''\<rparr>]) None ts"
              by simp
            ultimately show thesis by (rule keep)
          next
            case False
            have "unannotated (t\<lparr>exit_reason := Some ''signal''\<rparr>) = unannotated t" by simp
            moreover from nb \<open>type t = ''SELL'' \<and> cp \<noteq> None\<close> sl nsl tp False
            have "managed_loop rm m cp (t # ts) =
                managed_loop rm (m @ [t\<lparr>exit_reason := Some ''signal''\<rparr>]) None ts"
              by simp
            ultimately show thesis by (rule keep)
          qed
        qed
      qed
    qed
  qed
qed

lemma managed_loop_sublist:
  "snd (managed_loop rm m cp ts) = Inr out \<Longrightarrow>
     \<exists>ys. out = m @ ys \<and> subseq (map unannotated ys) (map unannotated ts)"
proof (induction ts arbitrary: rm m cp)
  case Nil
  then show ?case by simp
next
  case (Cons t ts)
  show ?case
  proof (cases rule: managed_loop_Cons_cases [of rm m cp t ts])
    case (raise rm' e)
    with Cons.prems show ?thesis by simp
  next
    case (skip rm')
    with Cons.prems have "snd (managed_loop rm' m cp ts) = Inr out" by simp
    from Cons.IH [OF this] obtain ys where
      "out = m @ ys" "subseq (map unannotated ys) (map unannotated ts)" by blast
    then show ?thesis by auto
  next
    case (keep rm' t' cp')
    with Cons.prems have "snd (managed_loop rm' (m @ [t']) cp' ts) = Inr out" by simp
    from Cons.IH [OF this] obtain ys where
      ys: "out = (m @ [t']) @ ys" "subseq (map unannotated ys) (map unannotated ts)" by blast
    from ys(2) keep(1)
    have "subseq (map unannotated (t' # ys)) (map unannotated (t # ts))" by simp
    with ys(1) show ?thesis by (intro exI [of _ "t' # ys"]) simp
  qed
qed


lemma should_enter_trade_returns:
  assumes "max (peak_value rm) c \<noteq> 0"
  shows "\<exists>d. snd (should_enter_trade rm c e t) = Inr d \<and> (enter d \<longrightarrow> e \<noteq> 0)"
proof -
  obtain rm' res where u: "update_drawdown rm c = (rm', res)"
    by (cases "update_drawdown rm c")
  then have "res = snd (update_drawdown rm c)" by simp
  with assms obtain info where res: "res = Inr info" by (simp add: update_drawdown_snd)
  let ?rr = "calculate_risk_reward_ratio e t (e * (1 - stop_loss_pct rm))"
  show ?thesis
  proof (cases "d_halt_trading info")
    case True
    with u res show ?thesis by (simp add: should_enter_trade_def Let_def)
  next
    case nh: False
    show ?thesis
    proof (cases "?rr < 2")
      case True
      with u res nh show ?thesis by (simp add: should_enter_trade_def Let_def)
    next
      case False
      have "e \<noteq> 0"
      proof
        assume "e = 0"
        then have "?rr = 0" by (simp add: calculate_risk_reward_ratio_def)
        with False show False by simp
      qed
      then obtain n where n: "calculate_position_size rm' c e None = Inr n"
        by (simp add: calculate_position_size_def py_truediv_def Let_def)
      show ?thesis
      proof (cases "n = 0")
        case True
        with u res nh False n show ?thesis by (simp add: should_enter_trade_def Let_def)
      next
        case nz: False
        with u res nh False n \<open>e \<noteq> 0\<close> show ?thesis
          by (simp add: should_enter_trade_def Let_def)
      qed
    qed
  qed
qed

lemma managed_loop_returns:
  "0 < peak_value rm \<Longrightarrow> (\<forall>c. cp = Some c \<longrightarrow> price c \<noteq> 0) \<Longrightarrow>
     \<exists>out. snd (managed_loop rm m cp ts) = Inr out"
proof (induction ts arbitrary: rm m cp)
  case Nil
  then show ?case by simp
next
  case (Cons t ts)
  show ?case
  proof (cases "type t = ''BUY''")
    case True
    let ?c = "case available_capital t of None \<Rightarrow> 100000 | Some c \<Rightarrow> c"
    let ?r = "should_enter_trade rm ?c (price t) (price t * (1 + take_profit_pct rm))"
    obtain rm' res where r: "?r = (rm', res)" by (cases ?r)
    then have "rm' = fst ?r" "res = snd ?r" by simp_all
    from \<open>rm' = fst ?r\<close> have "peak_value rm' = max (peak_value rm) ?c"
      by (simp only: should_enter_trade_fst update_drawdown_fst_peak)
    with Cons.prems(1) have pk: "0 < peak_value rm'" by simp
    from Cons.prems(1) have "max (peak_value rm) ?c \<noteq> 0" by (simp add: max_def)
    from should_enter_trade_returns [OF this] \<open>res = snd ?r\<close>
    obtain d where d: "res = Inr d" "enter d \<longrightarrow> price t \<noteq> 0" by auto
    show ?thesis
    proof (cases d)
      case (Enter psize slp rr ml)
      let ?t' = "t\<lparr>position_size := Some psize, stop_loss_price := Some slp,
                    risk_reward := Some rr\<rparr>"
      from d(2) Enter have "\<forall>c. Some ?t' = Some c \<longrightarrow> price c \<noteq> 0" by simp
      from Cons.IH [OF pk this] obtain out where
        "snd (managed_loop rm' (m @ [?t']) (Some ?t') ts) = Inr out" ..
      with True r d(1) Enter show ?thesis by (simp add: Let_def)
    next
      case (Maximum_drawdown_exceeded x)
      from Cons.IH [OF pk Cons.prems(2)] obtain out where
        "snd (managed_loop rm' m cp ts) = Inr out" ..
      with True r d(1) Maximum_drawdown_exceeded show ?thesis by (simp add: Let_def)
    next
      case (Poor_risk_reward x)
      from Cons.IH [OF pk Cons.prems(2)] obtain out where
        "snd (managed_loop rm' m cp ts) = Inr out" ..
      with True r d(1) Poor_risk_reward show ?thesis by (simp add: Let_def)
    next
      case (Insufficient_capital x)
      from Cons.IH [OF pk Cons.prems(2)] obtain out where
        "snd (managed_loop rm' m cp ts) = Inr out" ..
      with True r d(1) Insufficient_capital show ?thesis by (simp add: Let_def)
    qed
  next
    case nb: False
    have none: "\<forall>c. (None :: trade option) = Some c \<longrightarrow> price c \<noteq> 0" by simp
    show ?thesis
    proof (cases "type t = ''SELL'' \<and> cp \<noteq> None")
      case False
      from Cons.IH [OF Cons.prems] obtain out where
        "snd (managed_loop rm m cp ts) = Inr out" ..
      with nb False show ?thesis by auto
    next
      case True
      with Cons.prems(2) have pz: "price (the cp) \<noteq> 0" by auto
      let ?e = "price (the cp)"
      have sl: "check_stop_loss rm ?e (price t) =
          Inr ((?e - price t) / ?e \<ge> stop_loss_pct rm)"
        using pz by (simp add: check_stop_loss_def py_truediv_def)
      have tp: "check_take_profit rm ?e (price t) =
          Inr ((price t - ?e) / ?e \<ge> take_profit_pct rm)"
        using pz by (simp add: check_take_profit_def py_truediv_def)
      from Cons.IH [OF Cons.prems(1) none] obtain o1 where
        o1: "snd (managed_loop rm (m @ [t\<lparr>exit_reason := Some ''stop_loss''\<rparr>]) None ts) = Inr o1" ..
      from Cons.IH [OF Cons.prems(1) none] obtain o2 where
        o2: "snd (managed_loop rm (m @ [t\<lparr>exit_reason := Some ''take_profit''\<rparr>]) None ts) = Inr o2" ..
      from Cons.IH [OF Cons.prems(1) none] obtain o3 where
        o3: "snd (managed_loop rm (m @ [t\<lparr>exit_reason := Some ''signal''\<rparr>]) None ts) = Inr o3" ..
      show ?thesis
      proof (cases "(?e - price t) / ?e \<ge> stop_loss_pct rm")
        case hit: True
        with nb True o1 show ?thesis by (simp add: sl)
      next
        case miss: False
        show ?thesis
        proof (cases "(price t - ?e) / ?e \<ge> take_profit_pct rm")
          case hit2: True
          with nb True miss o2 show ?thesis by (simp add: sl tp)
        next
          case miss2: False
          with nb True miss o3 show ?thesis by (simp add: sl tp)
        qed
      qed
    qed
  qed
qed

lemma unannotated_eq_fields:
  assumes "unannotated t = unannotated s"
  shows "type t = type s \<and> price t = price s \<and> shares t = shares s \<and>
        value t = value s \<and> profit t = profit s \<and> date t = date s"
proof -
  have f: "type (unannotated x) = type x" "price (unannotated x) = price x"
    "shares (unannotated x) = shares x" "value (unannotated x) = value x"
    "profit (unannotated x) = profit x" "date (unannotated x) = date x" for x
    by (simp_all add: unannotated_def)
  from f [of t, unfolded assms] f [of s] show ?thesis by simp
qed

lemma sample_managed_run:
  "snd (apply_risk_management sample_ledger default_RiskManager) = Inr sample_managed"
  by (simp add: apply_risk_management_def sample_ledger_def sample_managed_def
      buy_trade_def sell_trade_def should_enter_trade_def update_drawdown_def
      calculate_risk_reward_ratio_def calculate_position_size_def check_stop_loss_def
      check_take_profit_def py_truediv_def py_int_def default_RiskManager_def
      RiskManager_init_def Let_def)

text \<open>
  C5: whenever \<open>apply_risk_management\<close> returns, its result without the annotations is
  an ordered sublist of the input without the annotations: every output trade is an
  input trade with its type, price, shares, value, profit and date unchanged, so no cash
  or share quantity is computed anew. Over exact reals it returns for every ledger when
  the peak of the risk manager is positive, as it is for the default instance.
\<close>

theorem managed_trades_sublist:
  "(0 < peak_value rm \<longrightarrow> (\<exists>out. snd (apply_risk_management ts rm) = Inr out)) \<and>
   (\<forall>out. snd (apply_risk_management ts rm) = Inr out \<longrightarrow>
      subseq (map unannotated out) (map unannotated ts) \<and>
      (\<forall>t\<in>set out. \<exists>s\<in>set ts.
          type t = type s \<and> price t = price s \<and> shares t = shares s \<and> value t = value s \<and>
          profit t = profit s \<and> date t = date s))"
proof (intro conjI allI impI)
  assume "0 < peak_value rm"
  then show "\<exists>out. snd (apply_risk_management ts rm) = Inr out"
    unfolding apply_risk_management_def by (rule managed_loop_returns) simp
next
  fix out assume "snd (apply_risk_management ts rm) = Inr out"
  then have "snd (managed_loop rm [] None ts) = Inr out"
    by (simp add: apply_risk_management_def)
  from managed_loop_sublist [OF this]
  show sub: "subseq (map unannotated out) (map unannotated ts)" by simp
  show "\<forall>t\<in>set out. \<exists>s\<in>set ts.
          type t = type s \<and> price t = price s \<and> shares t = shares s \<and> value t = value s \<and>
          profit t = profit s \<and> date t = date s"
  proof
    fix t assume "t \<in> set out"
    then have "unannotated t \<in> set (map unannotated out)" by simp
    from list_emb_set [OF sub this] obtain y where
      "y \<in> set (map unannotated ts)" "unannotated t = y" by blast
    then obtain s where s: "s \<in> set ts" "unannotated t = unannotated s" by auto
    from s(2) have "type t = type s \<and> price t = price s \<and> shares t = shares s \<and>
        value t = value s \<and> profit t = profit s \<and> date t = date s"
      by (rule unannotated_eq_fields)
    with s(1) show "\<exists>s\<in>set ts.
          type t = type s \<and> price t = price s \<and> shares t = shares s \<and> value t = value s \<and>
          profit t = profit s \<and> date t = date s" ..
  qed
qed

theorem managed_trades_sublist_witness:
  "0 < peak_value default_RiskManager \<and>
   snd (apply_risk_management sample_ledger default_RiskManager) = Inr sample_managed \<and>
   subseq (map unannotated sample_managed) (map unannotated sample_ledger) \<and>
   map price sample_managed = [10, 12] \<and> map shares sample_managed = [100, 100] \<and>
   map value sample_managed = [1000, 1200]"
proof -
  have p: "0 < peak_value default_RiskManager"
    by (simp add: default_RiskManager_def RiskManager_init_def)
  from managed_trades_sublist [of default_RiskManager sample_ledger] sample_managed_run
  have "subseq (map unannotated sample_managed) (map unannotated sample_ledger)" by blast
  moreover have "map price sample_managed = [10, 12]" "map shares sample_managed = [100, 100]"
    "map value sample_managed = [1000, 1200]"
    by (simp_all add: sample_managed_def buy_trade_def sell_trade_def)
  ultimately show ?thesis using p sample_managed_run by blast
qed


section \<open>Rounding to doubles\<close>

lemma rne_cases: "rne y = \<lfloor>y\<rfloor> \<or> rne y = \<lfloor>y\<rfloor> + 1"
  by (simp add: rne_def Let_def)

lemma rne_up_half: "rne y = \<lfloor>y\<rfloor> + 1 \<Longrightarrow> of_int \<lfloor>y\<rfloor> + 1 / 2 \<le> y"
  by (simp add: rne_def Let_def split: if_splits)

lemma rne_down_half: "rne y = \<lfloor>y\<rfloor> \<Longrightarrow> y \<le> of_int \<lfloor>y\<rfloor> + 1 / 2"
  by (simp add: rne_def Let_def split: if_splits)

lemma rne_nonneg: "0 \<le> y \<Longrightarrow> 0 \<le> rne y"
  using rne_cases [of y] by (auto simp: zero_le_floor intro: add_nonneg_nonneg)

lemma rne_nonpos:
  assumes "y \<le> 0"
  shows "rne y \<le> 0"
proof (cases "y = 0")
  case True
  then show ?thesis by (simp add: rne_def)
next
  case False
  with assms have "y < 0" by simp
  then have "\<lfloor>y\<rfloor> < 0" by (simp add: floor_less_iff)
  with rne_cases [of y] show ?thesis by linarith
qed

lemma rne_abs_le: "\<bar>real_of_int (rne y)\<bar> \<le> 2 * \<bar>y\<bar>"
proof (cases "0 \<le> y")
  case True
  then have n: "0 \<le> real_of_int (rne y)" using rne_nonneg [of y] by simp
  have fl: "real_of_int \<lfloor>y\<rfloor> \<le> y" by (rule of_int_floor_le)
  from True have f0: "0 \<le> real_of_int \<lfloor>y\<rfloor>" by simp
  from rne_cases [of y] show ?thesis
  proof
    assume "rne y = \<lfloor>y\<rfloor>"
    then have "real_of_int (rne y) = real_of_int \<lfloor>y\<rfloor>" by simp
    with fl True n show ?thesis by linarith
  next
    assume u: "rne y = \<lfloor>y\<rfloor> + 1"
    then have e: "real_of_int (rne y) = real_of_int \<lfloor>y\<rfloor> + 1" by simp
    from rne_up_half [OF u] f0 e True n show ?thesis by linarith
  qed
next
  case False
  then have neg: "y < 0" by simp
  then have n: "real_of_int (rne y) \<le> 0" using rne_nonpos [of y] by simp
  from neg have "\<lfloor>y\<rfloor> < 0" by (simp add: floor_less_iff)
  then have "\<lfloor>y\<rfloor> \<le> - 1" by linarith
  then have "real_of_int \<lfloor>y\<rfloor> \<le> real_of_int (- 1)" by (simp only: of_int_le_iff)
  then have f: "real_of_int \<lfloor>y\<rfloor> \<le> - 1" by simp
  have fu: "y < real_of_int \<lfloor>y\<rfloor> + 1" by linarith
  from rne_cases [of y] show ?thesis
  proof
    assume d: "rne y = \<lfloor>y\<rfloor>"
    then have e: "real_of_int (rne y) = real_of_int \<lfloor>y\<rfloor>" by simp
    from rne_down_half [OF d] f e fu neg n show ?thesis by linarith
  next
    assume u: "rne y = \<lfloor>y\<rfloor> + 1"
    then have e: "real_of_int (rne y) = real_of_int \<lfloor>y\<rfloor> + 1" by simp
    from e fu neg n show ?thesis by linarith
  qed
qed

lemma quantum_pos: "0 < quantum x"
  by (simp add: quantum_def)


lemma quantum_eval:
  assumes "2 powi k \<le> \<bar>x\<bar>" and "\<bar>x\<bar> < 2 powi (k + 1)"
  shows "quantum x = 2 powi (max k (- 1022) - 52)"
proof -
  have p: "0 < (2::real) powi k" by simp
  with assms(1) have x: "0 < \<bar>x\<bar>" by linarith
  have "(2::real) powr real_of_int k = 2 powi k" "(2::real) powr (real_of_int k + 1) = 2 powi (k + 1)"
    using powr_real_of_int' [of "2::real" k] powr_real_of_int' [of "2::real" "k + 1"] by simp_all
  with assms have "\<lfloor>log 2 \<bar>x\<bar>\<rfloor> = k"
    using floor_log_eq_powr_iff [of "\<bar>x\<bar>" 2 k] x by simp
  then show ?thesis by (simp add: quantum_def)
qed

lemma round64_eval:
  assumes "2 powi k \<le> \<bar>x\<bar>" and "\<bar>x\<bar> < 2 powi (k + 1)"
  shows "round64 x =
     (let r = 2 powi (max k (- 1022) - 52) * of_int (rne (x / 2 powi (max k (- 1022) - 52)))
      in if 2 ^ 1024 \<le> \<bar>r\<bar> then (if 0 < x then PosInf else NegInf) else Finite r)"
proof -
  have "0 < (2::real) powi k" by simp
  with assms(1) have "0 < \<bar>x\<bar>" by linarith
  then have "x \<noteq> 0" by simp
  then show ?thesis by (simp add: round64_def quantum_eval [OF assms])
qed

lemma round64_finite:
  assumes "\<bar>x\<bar> < 2 ^ 1023"
  shows "\<exists>r. round64 x = Finite r \<and> \<bar>r\<bar> \<le> 2 * \<bar>x\<bar> \<and>
           (0 \<le> x \<longrightarrow> 0 \<le> r) \<and> (x \<le> 0 \<longrightarrow> r \<le> 0)"
proof (cases "x = 0")
  case True
  then show ?thesis by (simp add: round64_def)
next
  case False
  let ?q = "quantum x"
  let ?k = "rne (x / ?q)"
  let ?r = "?q * of_int ?k"
  have q: "0 < ?q" by (rule quantum_pos)
  have "\<bar>?r\<bar> = ?q * \<bar>real_of_int ?k\<bar>" using q by (simp add: abs_mult)
  also have "\<dots> \<le> ?q * (2 * \<bar>x / ?q\<bar>)"
    using q rne_abs_le [of "x / ?q"] by (simp only: mult_le_cancel_left_pos)
  also have "\<dots> = 2 * \<bar>x\<bar>" using q by (simp add: abs_divide)
  finally have b: "\<bar>?r\<bar> \<le> 2 * \<bar>x\<bar>" .
  with assms have "\<bar>?r\<bar> < 2 ^ 1024" by simp
  then have r: "round64 x = Finite ?r" using False by (simp add: round64_def Let_def)
  have "0 \<le> ?r" if "0 \<le> x"
  proof -
    from that q have "0 \<le> x / ?q" by simp
    then have "0 \<le> ?k" by (rule rne_nonneg)
    with q show ?thesis by simp
  qed
  moreover have "?r \<le> 0" if "x \<le> 0"
  proof -
    from that q have "x / ?q \<le> 0" by (simp add: divide_nonpos_pos)
    then have "?k \<le> 0" by (rule rne_nonpos)
    with q show ?thesis by (simp add: mult_nonneg_nonpos)
  qed
  ultimately show ?thesis using r b by blast
qed

lemma round64_nonneg:
  assumes "0 \<le> x"
  shows "round64 x = PosInf \<or> (\<exists>r. round64 x = Finite r \<and> 0 \<le> r)"
proof (cases "x = 0")
  case True
  then show ?thesis by (simp add: round64_def)
next
  case False
  with assms have x: "0 < x" by simp
  from assms quantum_pos [of x] have "0 \<le> x / quantum x" by simp
  then have "0 \<le> rne (x / quantum x)" by (rule rne_nonneg)
  with quantum_pos [of x] have "0 \<le> quantum x * of_int (rne (x / quantum x))" by simp
  with x False show ?thesis by (simp add: round64_def Let_def)
qed

lemma py_int_abs_le: "\<bar>real_of_int (py_int x)\<bar> \<le> \<bar>x\<bar>"
proof (cases "0 \<le> x")
  case True
  then show ?thesis by (simp add: py_int_def)
next
  case False
  then have "x \<le> real_of_int \<lceil>x\<rceil>" "\<lceil>x\<rceil> \<le> 0" by (simp_all add: ceiling_le_zero)
  with False show ?thesis by (simp add: py_int_def)
qed


section \<open>Cash after a BUY\<close>

text \<open>
  C8 at a capital of 10066 and a closing price of 0.28, which as a double is
  1261007895663739 / 2 ^ 52: the quotient 35949.99... rounds to 35950.0, so the branch
  buys 35950 shares where the floor of cash / price is 35949; the cost rounds to
  5533842022596609 / 2 ^ 39, just above 10066, and the cash after the BUY is
  - 1 / 2 ^ 39, about - 1.8e-12, below zero.
\<close>

theorem buy_on_doubles_overdraws:
  "buy_float64 10066 (1261007895663739 / 2 ^ 52) = Inr (35950, Finite (- 1 / 2 ^ 39)) \<and>
   \<lfloor>10066 / (1261007895663739 / 2 ^ 52 :: real)\<rfloor> = 35949 \<and>
   (- 1 / 2 ^ 39 :: real) < 0"
proof -
  let ?p = "1261007895663739 / 2 ^ 52 :: real"
  have q: "round64 (10066 / ?p) = Finite 35950"
    using round64_eval [of 15 "10066 / ?p"] by (simp add: rne_def)
  have n: "round64 (of_int 35950) = Finite 35950"
    using round64_eval [of 15 "35950"] by (simp add: rne_def)
  have c: "round64 (35950 * ?p) = Finite (5533842022596609 / 2 ^ 39)"
    using round64_eval [of 13 "35950 * ?p"] by (simp add: rne_def)
  have d: "round64 (10066 - 5533842022596609 / 2 ^ 39) = Finite (- 1 / 2 ^ 39)"
    using round64_eval [of "- 39" "10066 - 5533842022596609 / 2 ^ 39"] by (simp add: rne_def)
  have "buy_float64 10066 ?p = Inr (35950, Finite (- 1 / 2 ^ 39))"
    using q n c d by (simp add: buy_float64_def np_truediv64_def py_int_def)
  moreover have "\<lfloor>10066 / ?p\<rfloor> = 35949" by simp
  ultimately show ?thesis by simp
qed


section \<open>Position sizing\<close>

text \<open>
  C2, as stated, fails on the code: at a price of 0 the division raises
  ZeroDivisionError; a negative capital with a negative price gives a positive quotient
  and so a positive share count; and a quotient beyond the double range is an infinity,
  on which \<open>int()\<close> raises OverflowError (here 2 ^ 1022 / 2 ^ - 10 at a maximum fraction
  of one half).
\<close>

theorem position_size_float64_counterexample:
  "calculate_position_size_float64 (default_RiskManager\<lparr>max_position_size := 1 / 2\<rparr>)
     1000 0 None = Inl ZeroDivisionError \<and>
   calculate_position_size_float64 (default_RiskManager\<lparr>max_position_size := 1 / 2\<rparr>)
     (- 1000) (- 10) None = Inr 50 \<and>
   calculate_position_size_float64 (default_RiskManager\<lparr>max_position_size := 1 / 2\<rparr>)
     (2 ^ 1023) (1 / 2 ^ 10) None = Inl OverflowError"
proof -
  have a: "round64 (- 500) = Finite (- 500)"
    using round64_eval [of 8 "- 500"] by (simp add: rne_def)
  have b: "round64 50 = Finite 50"
    using round64_eval [of 5 50] by (simp add: rne_def)
  have c: "round64 (2 ^ 1022) = Finite (2 ^ 1022)"
    using round64_eval [of 1022 "2 ^ 1022"] by (simp add: rne_def)
  have d: "round64 (2 ^ 1032) = PosInf"
    using round64_eval [of 1032 "2 ^ 1032"] by (simp add: rne_def)
  have "(2::real) ^ 1023 * (1 / 2) = 2 ^ 1022" "(2::real) ^ 1022 / (1 / 2 ^ 10) = 2 ^ 1032"
    by simp_all
  with a b c d show ?thesis
    by (simp add: calculate_position_size_float64_def py_truediv64_def py_int_def)
qed

lemma kelly_fraction_range:
  assumes "0 < v"
  shows "\<exists>k. py_min (Finite (1 / 4)) (round64 (1 / v)) = Finite k \<and> 0 \<le> k \<and> k \<le> 1 / 4"
proof -
  from assms have "0 \<le> 1 / v" by simp
  from round64_nonneg [OF this] show ?thesis
  proof
    assume "round64 (1 / v) = PosInf"
    then have "py_min (Finite (1 / 4)) (round64 (1 / v)) = Finite (1 / 4)"
      by (simp add: py_min_def)
    then show ?thesis by (intro exI [of _ "1 / 4"]) simp
  next
    assume "\<exists>r. round64 (1 / v) = Finite r \<and> 0 \<le> r"
    then obtain r where r: "round64 (1 / v) = Finite r" "0 \<le> r" by blast
    show ?thesis
    proof (cases "r < 1 / 4")
      case True
      with r have "py_min (Finite (1 / 4)) (round64 (1 / v)) = Finite r"
        by (simp add: py_min_def)
      with r(2) True show ?thesis by (intro exI [of _ r]) simp
    next
      case False
      with r have "py_min (Finite (1 / 4)) (round64 (1 / v)) = Finite (1 / 4)"
        by (simp add: py_min_def)
      then show ?thesis by (intro exI [of _ "1 / 4"]) simp
    qed
  qed
qed

lemma two_powers:
  "(2::real) * 2 ^ 1020 = 2 ^ 1021" "(2::real) * 2 ^ 1021 = 2 ^ 1022"
  "(2::real) * 2 ^ 1022 = 2 ^ 1023" "(2::real) ^ 1023 / 4 = 2 ^ 1021"
  "(2::real) ^ 1020 < 2 ^ 1023" "(2::real) ^ 1021 < 2 ^ 1023" "(2::real) ^ 1022 < 2 ^ 1023"
  by simp_all

text \<open>
  C2, amended: for finite inputs, at every price other than 0 at which capital times
  maximum fraction and that product over the price do not exceed 2 ^ 1020 in magnitude
  (so that nothing overflows the double range), \<open>calculate_position_size\<close> returns a
  share count that is not negative and raises nothing, with or without a volatility;
  with a maximum fraction that is not negative it returns 0 when the capital is at most
  0 and the price positive, or the capital at least 0 and the price negative.
\<close>

theorem position_size_float64_nonneg:
  assumes "current_price \<noteq> 0"
    and "\<bar>capital * max_position_size rm\<bar> \<le> 2 ^ 1020"
    and "\<bar>capital * max_position_size rm / current_price\<bar> \<le> 2 ^ 1020"
  shows "\<exists>n. calculate_position_size_float64 rm capital current_price volatility = Inr n \<and>
          0 \<le> n \<and>
          (0 \<le> max_position_size rm \<and>
             (capital \<le> 0 \<and> 0 < current_price \<or> 0 \<le> capital \<and> current_price < 0)
           \<longrightarrow> n = 0)"
proof -
  let ?a = "capital * max_position_size rm"
  let ?deg = "0 \<le> max_position_size rm \<and>
             (capital \<le> 0 \<and> 0 < current_price \<or> 0 \<le> capital \<and> current_price < 0)"
  from assms(2) have "\<bar>?a\<bar> < 2 ^ 1023" using two_powers(5) by linarith
  from round64_finite [OF this] obtain m where
    m: "round64 ?a = Finite m" "\<bar>m\<bar> \<le> 2 * \<bar>?a\<bar>" "0 \<le> ?a \<longrightarrow> 0 \<le> m" "?a \<le> 0 \<longrightarrow> m \<le> 0"
    by blast
  have "\<bar>m / current_price\<bar> = \<bar>m\<bar> / \<bar>current_price\<bar>" by (simp add: abs_divide)
  also have "\<dots> \<le> 2 * \<bar>?a\<bar> / \<bar>current_price\<bar>"
    using m(2) assms(1) by (simp add: divide_right_mono)
  also have "\<dots> = 2 * \<bar>?a / current_price\<bar>" by (simp add: abs_divide)
  also have "\<dots> \<le> 2 ^ 1021" using assms(3) two_powers(1) by linarith
  finally have mq: "\<bar>m / current_price\<bar> \<le> 2 ^ 1021" .
  then have "\<bar>m / current_price\<bar> < 2 ^ 1023" using two_powers(6) by linarith
  from round64_finite [OF this] obtain q where
    q: "round64 (m / current_price) = Finite q" "\<bar>q\<bar> \<le> 2 * \<bar>m / current_price\<bar>"
      "m / current_price \<le> 0 \<longrightarrow> q \<le> 0"
    by blast
  from q(2) mq two_powers(2) have qb: "\<bar>q\<bar> \<le> 2 ^ 1022" by linarith
  let ?sh = "py_int q"
  have shb: "\<bar>real_of_int ?sh\<bar> \<le> 2 ^ 1022" using py_int_abs_le [of q] qb by linarith
  have first: "py_truediv64 (round64 ?a) current_price = Inr (Finite q)"
    using assms(1) m(1) q(1) by (simp add: py_truediv64_def)
  have degq: "q \<le> 0" if ?deg
  proof -
    from that have "?a \<le> 0 \<and> 0 < current_price \<or> 0 \<le> ?a \<and> current_price < 0"
      by (auto simp: mult_nonpos_nonneg)
    with m(3,4) have "m \<le> 0 \<and> 0 < current_price \<or> 0 \<le> m \<and> current_price < 0" by blast
    then have "m / current_price \<le> 0"
      by (auto simp: divide_nonpos_pos divide_nonneg_neg)
    with q(3) show ?thesis by blast
  qed
  have degsh: "?sh \<le> 0" if ?deg using degq [OF that] by (rule py_int_nonpos)
  have plain: "?thesis"
    if "calculate_position_size_float64 rm capital current_price volatility = Inr (max 0 ?sh)"
  proof -
    have "?deg \<longrightarrow> max 0 ?sh = 0" using degsh by auto
    with that show ?thesis by auto
  qed
  show ?thesis
  proof (cases volatility)
    case None
    with first show ?thesis by (intro plain) (simp add: calculate_position_size_float64_def)
  next
    case (Some v)
    show ?thesis
    proof (cases "v \<noteq> 0 \<and> v > 0")
      case False
      with Some first show ?thesis
        by (intro plain) (auto simp: calculate_position_size_float64_def)
    next
      case True
      then have "0 < v" by simp
      from kelly_fraction_range [OF this] obtain k where
        k: "py_min (Finite (1 / 4)) (round64 (1 / v)) = Finite k" "0 \<le> k" "k \<le> 1 / 4"
        by blast
      from shb two_powers(7) have "\<bar>real_of_int ?sh\<bar> < 2 ^ 1023" by linarith
      from round64_finite [OF this] obtain sf where
        sf: "round64 (real_of_int ?sh) = Finite sf" "\<bar>sf\<bar> \<le> 2 * \<bar>real_of_int ?sh\<bar>"
          "real_of_int ?sh \<le> 0 \<longrightarrow> sf \<le> 0"
        by blast
      from sf(2) shb two_powers(3) have sfb: "\<bar>sf\<bar> \<le> 2 ^ 1023" by linarith
      have "\<bar>sf * k\<bar> = \<bar>sf\<bar> * k" using k(2) by (simp add: abs_mult)
      also have "\<dots> \<le> 2 ^ 1023 * (1 / 4)"
        using sfb k(2,3) by (intro mult_mono) simp_all
      also have "\<dots> = 2 ^ 1021" using two_powers(4) by simp
      finally have "\<bar>sf * k\<bar> < 2 ^ 1023" using two_powers(6) by linarith
      from round64_finite [OF this] obtain p where
        p: "round64 (sf * k) = Finite p" "sf * k \<le> 0 \<longrightarrow> p \<le> 0"
        by blast
      have res: "calculate_position_size_float64 rm capital current_price volatility
          = Inr (max 0 (py_int p))"
        using Some True first k(1) sf(1) p(1)
        by (simp add: calculate_position_size_float64_def int_to_float64_def)
      have "py_int p \<le> 0" if ?deg
      proof -
        from degsh [OF that] have "real_of_int ?sh \<le> 0" by simp
        with sf(3) have "sf \<le> 0" by blast
        with k(2) have "sf * k \<le> 0" by (simp add: mult_nonpos_nonneg)
        with p(2) have "p \<le> 0" by blast
        then show ?thesis by (rule py_int_nonpos)
      qed
      then have "?deg \<longrightarrow> max 0 (py_int p) = 0" by auto
      with res show ?thesis by auto
    qed
  qed
qed

theorem position_size_float64_nonneg_witness:
  "(10 :: real) \<noteq> 0 \<and>
   \<bar>- 1000 * max_position_size (default_RiskManager\<lparr>max_position_size := 1 / 2\<rparr>)\<bar>
     \<le> 2 ^ 1020 \<and>
   \<bar>- 1000 * max_position_size (default_RiskManager\<lparr>max_position_size := 1 / 2\<rparr>) / 10\<bar>
     \<le> 2 ^ 1020 \<and>
   calculate_position_size_float64 (default_RiskManager\<lparr>max_position_size := 1 / 2\<rparr>)
     (- 1000) 10 (Some 2) = Inr 0"
proof -
  let ?rm = "default_RiskManager\<lparr>max_position_size := 1 / 2\<rparr>"
  have h1: "(10 :: real) \<noteq> 0" by simp
  have h2: "\<bar>- 1000 * max_position_size ?rm\<bar> \<le> 2 ^ 1020" by simp
  have h3: "\<bar>- 1000 * max_position_size ?rm / 10\<bar> \<le> 2 ^ 1020" by simp
  have deg: "0 \<le> max_position_size ?rm \<and>
      ((- 1000 :: real) \<le> 0 \<and> (0 :: real) < 10 \<or> (0 :: real) \<le> - 1000 \<and> (10 :: real) < 0)"
    by simp
  from position_size_float64_nonneg [OF h1 h2 h3, of "Some 2"] deg
  have "calculate_position_size_float64 ?rm (- 1000) 10 (Some 2) = Inr 0" by blast
  with h1 h2 h3 show ?thesis by blast
qed

end
